theory Spec2Isabelle
  imports Main
begin

section \<open>JavaScript values\<close>

text \<open>
  The connector of \<^verbatim>\<open>lib/couchdb.js\<close> handles plain JavaScript values: records,
  where-clauses, option bags and documents are objects, keys are strings or buffers.
  An object is an association list in insertion order; a property that is absent reads
  as \<open>JUndefined\<close>, as in JavaScript.
\<close>

datatype jsval =
    JUndefined
  | JNull
  | JBool bool
  | JNum int
  | JStr string
  | JBuf string
  | JArr "jsval list"
  | JObj "(string \<times> jsval) list"

type_synonym obj = "(string \<times> jsval) list"

text \<open>\<^verbatim>\<open>x == null\<close>: true of \<^verbatim>\<open>null\<close> and \<^verbatim>\<open>undefined\<close> only.\<close>

fun nullish :: "jsval \<Rightarrow> bool" where
  "nullish JUndefined = True"
| "nullish JNull = True"
| "nullish _ = False"

text \<open>\<^verbatim>\<open>Boolean(x)\<close>, the truthiness used by \<^verbatim>\<open>if (x)\<close>, \<^verbatim>\<open>!x\<close>, \<^verbatim>\<open>a || b\<close> and \<^verbatim>\<open>a && b\<close>.\<close>

fun truthy :: "jsval \<Rightarrow> bool" where
  "truthy JUndefined = False"
| "truthy JNull = False"
| "truthy (JBool b) = b"
| "truthy (JNum n) = (n \<noteq> 0)"
| "truthy (JStr s) = (s \<noteq> [])"
| "truthy _ = True"

text \<open>\<^verbatim>\<open>o[k]\<close> on an object.\<close>

definition get_prop :: "obj \<Rightarrow> string \<Rightarrow> jsval" where
  "get_prop ob k = (case map_of ob k of None \<Rightarrow> JUndefined | Some v \<Rightarrow> v)"

text \<open>
  \<^verbatim>\<open>x[k]\<close> on any value that is not \<^verbatim>\<open>null\<close> or \<^verbatim>\<open>undefined\<close>: only plain objects carry
  properties here.
\<close>

fun prop_of :: "jsval \<Rightarrow> string \<Rightarrow> jsval" where
  "prop_of (JObj ob) k = get_prop ob k"
| "prop_of _ k = JUndefined"

text \<open>
  \<^verbatim>\<open>o[k] = v\<close>: an existing key keeps its place, a new key goes last.
\<close>

fun set_prop :: "string \<Rightarrow> jsval \<Rightarrow> obj \<Rightarrow> obj" where
  "set_prop k v [] = [(k, v)]"
| "set_prop k v (p # ps) = (if fst p = k then (k, v) # ps else p # set_prop k v ps)"

text \<open>\<^verbatim>\<open>Object.keys(o)\<close>.\<close>

definition object_keys :: "obj \<Rightarrow> string list" where
  "object_keys ob = map fst ob"

fun is_string :: "jsval \<Rightarrow> bool" where
  "is_string (JStr s) = True"
| "is_string _ = False"

fun is_buffer :: "jsval \<Rightarrow> bool" where
  "is_buffer (JBuf b) = True"
| "is_buffer _ = False"

fun is_array :: "jsval \<Rightarrow> bool" where
  "is_array (JArr xs) = True"
| "is_array _ = False"

fun elements :: "jsval \<Rightarrow> jsval list" where
  "elements (JArr xs) = xs"
| "elements _ = []"

text \<open>
  Modelled from the spec: \<^verbatim>\<open>merge.call(target, source)\<close> of the package
  \<^verbatim>\<open>mixable-object\<close>, which \<^verbatim>\<open>saveDesignDocs\<close> calls and whose source is not part of
  \<^verbatim>\<open>lib/couchdb.js\<close>. The spec describes the merge as "start from stored fields,
  overwrite with configured fields, keep the rest -- an explicit two-map merge".
\<close>

definition merge :: "obj \<Rightarrow> obj \<Rightarrow> obj" where
  "merge target source = fold (\<lambda>k acc. set_prop k (get_prop source k) acc) (object_keys source) target"

section \<open>Failures and the three ways a call ends\<close>

datatype error =
    ConfigurationError
  | TypeError
  | NotFound
  | Conflict
  | BadRequest
  | PreconditionFailed
  | MethodNotAllowed

text \<open>
  A call of the connector returns a promise that is fulfilled or rejected, or it throws
  before any promise exists (\<^verbatim>\<open>connect\<close> does, on a missing database name).
\<close>

datatype 'a outcome = Fulfilled 'a | Rejected error | Thrown error

text \<open>
  \<^verbatim>\<open>p.then(f)\<close>: \<open>f\<close> runs on the fulfilled value; a throw inside \<open>f\<close> rejects the
  resulting promise; a rejection passes through. When the expression that should have
  produced \<open>p\<close> threw, there is no promise and the throw propagates.
\<close>

definition and_then :: "'a outcome \<times> 's \<Rightarrow> ('a \<Rightarrow> 's \<Rightarrow> 'b outcome \<times> 's) \<Rightarrow> 'b outcome \<times> 's" where
  "and_then p f =
     (case fst p of
        Fulfilled x \<Rightarrow>
          (case fst (f x (snd p)) of
             Thrown e \<Rightarrow> (Rejected e, snd (f x (snd p)))
           | _ \<Rightarrow> f x (snd p))
      | Rejected e \<Rightarrow> (Rejected e, snd p)
      | Thrown e \<Rightarrow> (Thrown e, snd p))"

section \<open>The document store behind the connector\<close>

text \<open>
  Modelled from the spec: the transport (the \<^verbatim>\<open>nano\<close> client and the CouchDB server)
  is an external collaborator, given by the capability interface of the spec's section 6:
  \<^verbatim>\<open>get(id, opts) -> Document | NotFound\<close>,
  \<^verbatim>\<open>put(document, opts) -> {id, rev} | Conflict\<close>,
  \<^verbatim>\<open>delete(id, rev) -> ok | NotFound | Conflict\<close>,
  \<^verbatim>\<open>databaseExists(name)\<close>, \<^verbatim>\<open>createDatabase(name)\<close>, \<^verbatim>\<open>destroyDatabase(name)\<close>,
  and by section 3: a document is a record's fields plus the store-managed \<^verbatim>\<open>_id\<close> (a
  string) and \<^verbatim>\<open>_rev\<close> (an opaque token that changes on every successful write and
  must be presented on every write to an existing document).

  A database maps a document id to the document's revision number and body. The server
  maps names to databases, hands out the ids \<open>uuids 0, uuids 1, ...\<close> to documents
  posted without one, and answers \<open>root\<close> to a request that names no database.

  The client's \<^verbatim>\<open>insert\<close> is handed the caller's options object itself, and a client
  may use up the \<^verbatim>\<open>docName\<close> it finds there. What it leaves of such an object is a
  parameter of the transport, \<open>insert_keeps\<close>: nothing in \<^verbatim>\<open>lib/couchdb.js\<close> or in the
  spec fixes it.
\<close>

type_synonym database = "string \<Rightarrow> (nat \<times> obj) option"

record server =
  dbs :: "string \<Rightarrow> database option"
  uuids :: "nat \<Rightarrow> string"
  uuid_seq :: nat
  root :: "jsval option"
  insert_keeps :: "obj \<Rightarrow> obj"

text \<open>
  Modelled from the spec: the options object after the client's \<^verbatim>\<open>insert\<close> was handed
  it. The spec gives the insert one option, the id to address the document by ("a put
  addressed by id"), so only an object that carries a \<^verbatim>\<open>docName\<close> has anything for
  the client to use up; what the client leaves of it is the parameter \<open>insert_keeps\<close>.
\<close>

definition consumed :: "server \<Rightarrow> obj \<Rightarrow> obj" where
  "consumed srv ob = (if truthy (get_prop ob ''docName'') then insert_keeps srv ob else ob)"

text \<open>
  Modelled from the spec: the document as the store serves it, the body with the
  store-managed \<^verbatim>\<open>_id\<close> and \<^verbatim>\<open>_rev\<close>.
\<close>

definition served :: "string \<Rightarrow> nat \<Rightarrow> obj \<Rightarrow> obj" where
  "served s r body = set_prop ''_rev'' (JNum (int r)) (set_prop ''_id'' (JStr s) body)"

text \<open>
  Modelled from the spec: \<^verbatim>\<open>get(id, opts) -> Document | NotFound\<close>. An id that is not a
  string names no document.
\<close>

definition doc_get :: "server \<Rightarrow> string \<Rightarrow> jsval \<Rightarrow> jsval \<Rightarrow> error + jsval" where
  "doc_get srv name ident opts =
     (case dbs srv name of
        None \<Rightarrow> Inl NotFound
      | Some d \<Rightarrow>
          (case ident of
             JStr s \<Rightarrow>
               (case d s of
                  None \<Rightarrow> Inl NotFound
                | Some (r, body) \<Rightarrow> Inr (JObj (served s r body)))
           | _ \<Rightarrow> Inl NotFound))"

text \<open>
  Modelled from the spec: the write of \<open>doc\<close> under the id \<open>s\<close>. It succeeds when the
  presented \<^verbatim>\<open>_rev\<close> is the current one (none for a document that does not exist) and
  gives the next revision; a stale \<^verbatim>\<open>_rev\<close> is a conflict.
\<close>

definition put_doc :: "server \<Rightarrow> string \<Rightarrow> database \<Rightarrow> string \<Rightarrow> obj \<Rightarrow> (error + obj) \<times> server" where
  "put_doc srv name d s doc =
     (let cur = (case d s of None \<Rightarrow> JUndefined | Some (r, body) \<Rightarrow> JNum (int r));
          r' = (case d s of None \<Rightarrow> 1 | Some (r, body) \<Rightarrow> Suc r)
      in if get_prop doc ''_rev'' = cur
         then (Inr [(''ok'', JBool True), (''id'', JStr s), (''rev'', JNum (int r'))],
               srv\<lparr>dbs := (dbs srv)(name \<mapsto> d(s \<mapsto> (r', doc)))\<rparr>)
         else (Inl Conflict, srv))"

text \<open>
  Modelled from the spec: \<^verbatim>\<open>put(document, opts) -> {id, rev} | Conflict\<close>, the client's
  \<^verbatim>\<open>insert\<close>. \<^verbatim>\<open>opts.docName\<close>, when given, addresses the document ("a put addressed by
  id"); otherwise the document's own \<^verbatim>\<open>_id\<close> does, and a document without one gets the
  next id of the store ("let the store assign one").
\<close>

definition doc_insert :: "server \<Rightarrow> string \<Rightarrow> obj \<Rightarrow> jsval \<Rightarrow> (error + obj) \<times> server" where
  "doc_insert srv name doc opts =
     (case dbs srv name of
        None \<Rightarrow> (Inl NotFound, srv)
      | Some d \<Rightarrow>
          (let docName = (if truthy opts then prop_of opts ''docName'' else JUndefined)
           in if truthy docName
              then (case docName of
                      JStr s \<Rightarrow> put_doc srv name d s doc
                    | _ \<Rightarrow> (Inl BadRequest, srv))
              else (case get_prop doc ''_id'' of
                      JUndefined \<Rightarrow>
                        put_doc (srv\<lparr>uuid_seq := Suc (uuid_seq srv)\<rparr>) name d
                          (uuids srv (uuid_seq srv)) doc
                    | JStr s \<Rightarrow>
                        if s = [] then (Inl BadRequest, srv) else put_doc srv name d s doc
                    | _ \<Rightarrow> (Inl BadRequest, srv))))"

text \<open>
  Modelled from the spec: \<^verbatim>\<open>delete(id, rev) -> ok | NotFound | Conflict\<close>, the client's
  \<^verbatim>\<open>destroy\<close>.
\<close>

definition doc_destroy :: "server \<Rightarrow> string \<Rightarrow> jsval \<Rightarrow> jsval \<Rightarrow> (error + obj) \<times> server" where
  "doc_destroy srv name ident revision =
     (case dbs srv name of
        None \<Rightarrow> (Inl NotFound, srv)
      | Some d \<Rightarrow>
          (case ident of
             JStr s \<Rightarrow>
               (case d s of
                  None \<Rightarrow> (Inl NotFound, srv)
                | Some (r, body) \<Rightarrow>
                    if revision = JNum (int r)
                    then (Inr [(''ok'', JBool True), (''id'', JStr s), (''rev'', JNum (int (Suc r)))],
                          srv\<lparr>dbs := (dbs srv)(name \<mapsto> d(s := None))\<rparr>)
                    else (Inl Conflict, srv))
           | _ \<Rightarrow> (Inl NotFound, srv)))"

text \<open>
  Modelled from the spec: the database a name addresses. \<^verbatim>\<open>undefined\<close> and the empty
  string address none (the request then goes to the server's root).
\<close>

definition addressed :: "string option \<Rightarrow> string option" where
  "addressed name = (case name of None \<Rightarrow> None | Some n \<Rightarrow> if n = [] then None else Some n)"

text \<open>Modelled from the spec: \<^verbatim>\<open>databaseExists(name)\<close>, the client's \<^verbatim>\<open>db.get\<close>.\<close>

definition db_get :: "server \<Rightarrow> string option \<Rightarrow> error + jsval" where
  "db_get srv name =
     (case addressed name of
        None \<Rightarrow> (case root srv of None \<Rightarrow> Inl NotFound | Some j \<Rightarrow> Inr j)
      | Some n \<Rightarrow>
          (case dbs srv n of
             None \<Rightarrow> Inl NotFound
           | Some d \<Rightarrow> Inr (JObj [(''db_name'', JStr n)])))"

text \<open>
  Modelled from the spec: \<^verbatim>\<open>createDatabase(name)\<close>, the client's \<^verbatim>\<open>db.create\<close>; it fails
  on a database that exists.
\<close>

definition db_create :: "server \<Rightarrow> string option \<Rightarrow> (error + jsval) \<times> server" where
  "db_create srv name =
     (case addressed name of
        None \<Rightarrow> (Inl MethodNotAllowed, srv)
      | Some n \<Rightarrow>
          (case dbs srv n of
             Some d \<Rightarrow> (Inl PreconditionFailed, srv)
           | None \<Rightarrow> (Inr (JObj [(''ok'', JBool True)]), srv\<lparr>dbs := (dbs srv)(n \<mapsto> (\<lambda>s. None))\<rparr>)))"

text \<open>
  Modelled from the spec: \<^verbatim>\<open>destroyDatabase(name)\<close>, the client's \<^verbatim>\<open>db.destroy\<close>; it
  fails on a database that does not exist.
\<close>

definition db_destroy :: "server \<Rightarrow> string option \<Rightarrow> (error + jsval) \<times> server" where
  "db_destroy srv name =
     (case addressed name of
        None \<Rightarrow> (Inl MethodNotAllowed, srv)
      | Some n \<Rightarrow>
          (case dbs srv n of
             None \<Rightarrow> (Inl NotFound, srv)
           | Some d \<Rightarrow> (Inr (JObj [(''ok'', JBool True)]), srv\<lparr>dbs := (dbs srv)(n := None)\<rparr>)))"

section \<open>The connector and its world\<close>

text \<open>
  The settings the connector itself reads. The address of the server (\<^verbatim>\<open>url\<close>, or
  \<^verbatim>\<open>protocol\<close>, \<^verbatim>\<open>hostname\<close> and \<^verbatim>\<open>port\<close>) is handed to the transport and read by
  no operation here. A setting that is absent is \<^verbatim>\<open>undefined\<close>.
\<close>

record settings =
  database :: "string option"
  db :: "string option"
  designDocs :: "(string \<times> obj) list option"

text \<open>
  The connection handle: the database object bound by \<^verbatim>\<open>nano.use(name)\<close>. \<open>serial\<close>
  tells one handle object from the next.
\<close>

record handle =
  serial :: nat
  bound_db :: string

text \<open>
  The connector instance: its settings, the id property of each model
  (\<^verbatim>\<open>Connector.prototype.idName\<close>), \<^verbatim>\<open>this._connection\<close> (with \<^verbatim>\<open>this._nano\<close> and
  \<^verbatim>\<open>this._db\<close>, which are set and cleared together with it), and the number of handles
  made so far.
\<close>

record connector =
  settings :: settings
  idName :: "string \<Rightarrow> string"
  connection :: "handle option"
  handles_made :: nat

text \<open>
  The world an operation runs in: the connector, the server, and the heap holding the
  objects that are passed by reference (the records and option bags of the callers, and
  the objects the connector makes to pass on), \<open>brk\<close> being the first address not yet
  allocated.
\<close>

record world =
  adapter :: connector
  couch :: server
  heap :: "nat \<Rightarrow> obj"
  brk :: nat

text \<open>A new object: \<^verbatim>\<open>{}\<close> or \<^verbatim>\<open>Object.assign({}, ...)\<close>.\<close>

definition alloc :: "obj \<Rightarrow> world \<Rightarrow> world \<times> nat" where
  "alloc ob w = (w\<lparr>heap := (heap w)(brk w := ob), brk := Suc (brk w)\<rparr>, brk w)"

text \<open>An \<^verbatim>\<open>options\<close> argument: \<^verbatim>\<open>null\<close> or a reference to the caller's object.\<close>

definition opt_val :: "world \<Rightarrow> nat option \<Rightarrow> jsval" where
  "opt_val w options = (case options of None \<Rightarrow> JNull | Some r \<Rightarrow> JObj (heap w r))"

text \<open>
  Modelled from the spec: \<^verbatim>\<open>getIdValue\<close> of the base class \<^verbatim>\<open>Connector\<close> (package
  \<^verbatim>\<open>loopback-connector\<close>, not part of \<^verbatim>\<open>lib/couchdb.js\<close>) reads the value of the
  identifier field, the one field designated per model: \<^verbatim>\<open>data && data[this.idName(model)]\<close>.
\<close>

definition getIdValue :: "connector \<Rightarrow> string \<Rightarrow> jsval \<Rightarrow> jsval" where
  "getIdValue c modelName data = (if truthy data then prop_of data (idName c modelName) else data)"

text \<open>
  Modelled from the spec: \<^verbatim>\<open>setIdValue\<close> of the same base class writes the identifier
  field: \<^verbatim>\<open>if (data) data[this.idName(model)] = value\<close>.
\<close>

definition setIdValue :: "connector \<Rightarrow> string \<Rightarrow> jsval \<Rightarrow> jsval \<Rightarrow> jsval" where
  "setIdValue c modelName data v =
     (if truthy data
      then (case data of JObj ob \<Rightarrow> JObj (set_prop (idName c modelName) v ob) | _ \<Rightarrow> data)
      else data)"

text \<open>The constructor \<^verbatim>\<open>CouchDB(settings, dataSource)\<close>.\<close>

definition CouchDB :: "settings \<Rightarrow> (string \<Rightarrow> string) \<Rightarrow> connector" where
  "CouchDB st idn = \<lparr>settings = st, idName = idn, connection = None, handles_made = 0\<rparr>"

text \<open>\<^verbatim>\<open>a || b\<close> on two optional strings.\<close>

definition str_or :: "string option \<Rightarrow> string option \<Rightarrow> string option" where
  "str_or a b = (case a of None \<Rightarrow> b | Some s \<Rightarrow> if s = [] then b else a)"

subsection \<open>connect, disconnect\<close>

definition connect :: "world \<Rightarrow> handle outcome \<times> world" where
  "connect w =
     (case connection (adapter w) of
        Some h \<Rightarrow> (Fulfilled h, w)
      | None \<Rightarrow>
          (case str_or (database (settings (adapter w))) (db (settings (adapter w))) of
             None \<Rightarrow> (Thrown ConfigurationError, w)
           | Some n \<Rightarrow>
               if n = [] then (Thrown ConfigurationError, w)
               else (let h = \<lparr>serial = handles_made (adapter w), bound_db = n\<rparr>
                     in (Fulfilled h,
                         w\<lparr>adapter := (adapter w)\<lparr>connection := Some h,
                              handles_made := Suc (handles_made (adapter w))\<rparr>\<rparr>))))"

definition disconnect :: "world \<Rightarrow> bool outcome \<times> world" where
  "disconnect w =
     (case connection (adapter w) of
        None \<Rightarrow> (Fulfilled True, w)
      | Some h \<Rightarrow> (Fulfilled True, w\<lparr>adapter := (adapter w)\<lparr>connection := None\<rparr>\<rparr>))"

subsection \<open>Helpers: findById, destroyById, getKeysFromWhere, getDB\<close>

definition findById :: "world \<Rightarrow> string \<Rightarrow> jsval \<Rightarrow> nat option \<Rightarrow> jsval outcome \<times> world" where
  "findById w modelName ident options =
     and_then (connect w) (\<lambda>h w1.
       case doc_get (couch w1) (bound_db h) ident (opt_val w1 options) of
         Inl e \<Rightarrow> (Rejected e, w1)
       | Inr data \<Rightarrow>
           if nullish data then (Rejected NotFound, w1)
           else (Fulfilled (setIdValue (adapter w1) modelName data (prop_of data ''_id'')), w1))"

definition destroyById :: "world \<Rightarrow> string \<Rightarrow> jsval \<Rightarrow> nat option \<Rightarrow> obj outcome \<times> world" where
  "destroyById w modelName ident options =
     and_then (connect w) (\<lambda>h w1.
       case doc_get (couch w1) (bound_db h) ident (opt_val w1 options) of
         Inl e \<Rightarrow> (Rejected e, w1)
       | Inr data \<Rightarrow>
           if nullish data then (Rejected NotFound, w1)
           else (case doc_destroy (couch w1) (bound_db h) (prop_of data ''_id'') (prop_of data ''_rev'') of
                   (Inl e, srv) \<Rightarrow> (Rejected e, w1\<lparr>couch := srv\<rparr>)
                 | (Inr r, srv) \<Rightarrow> (Fulfilled r, w1\<lparr>couch := srv\<rparr>)))"

definition getKeysFromWhere :: "connector \<Rightarrow> string \<Rightarrow> jsval \<Rightarrow> jsval list" where
  "getKeysFromWhere c modelName wh =
     (let key = getIdValue c modelName wh
      in if nullish key then []
         else if is_string key \<or> is_buffer key then [key]
         else if is_array (prop_of key ''inq'') then elements (prop_of key ''inq'')
         else [])"

definition getDB :: "world \<Rightarrow> jsval outcome \<times> world" where
  "getDB w =
     (case connection (adapter w) of
        None \<Rightarrow> (Thrown TypeError, w)
      | Some h \<Rightarrow>
          (case db_get (couch w) (database (settings (adapter w))) of
             Inl e \<Rightarrow> (Fulfilled (JBool False), w)
           | Inr info \<Rightarrow> (Fulfilled info, w)))"

text \<open>\<^verbatim>\<open>this._db.call('createAsync', name)\<close> and \<^verbatim>\<open>this._db.call('destroyAsync', name)\<close>.\<close>

definition db_createAsync :: "string option \<Rightarrow> world \<Rightarrow> jsval outcome \<times> world" where
  "db_createAsync name w =
     (case connection (adapter w) of
        None \<Rightarrow> (Thrown TypeError, w)
      | Some h \<Rightarrow>
          (case db_create (couch w) name of
             (Inl e, srv) \<Rightarrow> (Rejected e, w\<lparr>couch := srv\<rparr>)
           | (Inr r, srv) \<Rightarrow> (Fulfilled r, w\<lparr>couch := srv\<rparr>)))"

definition db_destroyAsync :: "string option \<Rightarrow> world \<Rightarrow> jsval outcome \<times> world" where
  "db_destroyAsync name w =
     (case connection (adapter w) of
        None \<Rightarrow> (Thrown TypeError, w)
      | Some h \<Rightarrow>
          (case db_destroy (couch w) name of
             (Inl e, srv) \<Rightarrow> (Rejected e, w\<lparr>couch := srv\<rparr>)
           | (Inr r, srv) \<Rightarrow> (Fulfilled r, w\<lparr>couch := srv\<rparr>)))"

subsection \<open>Hooks: create, save, destroy, replaceById, all\<close>

text \<open>
  Modelled from the spec: \<^verbatim>\<open>connection.call('insertAsync', data, options)\<close>, the
  client's \<^verbatim>\<open>insert\<close> as a promise. The document is read, it becomes the body of the
  request, and is left as it is. The options are \<^verbatim>\<open>null\<close> or the object at an address:
  the client reads that object and leaves \<open>consumed\<close> of it at the same address,
  whether or not the write goes through.
\<close>

definition insertAsync :: "handle \<Rightarrow> obj \<Rightarrow> nat option \<Rightarrow> world \<Rightarrow> obj outcome \<times> world" where
  "insertAsync h doc options w =
     (let w1 = (case options of
                  None \<Rightarrow> w
                | Some r \<Rightarrow> w\<lparr>heap := (heap w)(r := consumed (couch w) (heap w r))\<rparr>)
      in case doc_insert (couch w) (bound_db h) doc (opt_val w options) of
           (Inl e, srv) \<Rightarrow> (Rejected e, w1\<lparr>couch := srv\<rparr>)
         | (Inr r, srv) \<Rightarrow> (Fulfilled r, w1\<lparr>couch := srv\<rparr>))"

definition create :: "world \<Rightarrow> string \<Rightarrow> nat \<Rightarrow> nat option \<Rightarrow> jsval list outcome \<times> world" where
  "create w modelName data options =
     (let ident = getIdValue (adapter w) modelName (JObj (heap w data));
          (w1, data1) = (if \<not> nullish ident
                         then alloc (set_prop ''_id'' ident (heap w data)) w
                         else (w, data))
      in and_then (and_then (connect w1) (\<lambda>h w2. insertAsync h (heap w2 data1) options w2))
           (\<lambda>r w3. (Fulfilled [get_prop r ''id'', get_prop r ''rev''], w3)))"

text \<open>
  \<^verbatim>\<open>save\<close> up to "Force PUT": the statements that run before the insert is queued.
  They give the world in which \<^verbatim>\<open>save\<close> returns its promise and the options object
  that goes to the insert, the caller's or a new one.
\<close>

definition save_begin :: "world \<Rightarrow> string \<Rightarrow> nat \<Rightarrow> nat option \<Rightarrow> world \<times> nat" where
  "save_begin w modelName data options =
     (let ident = getIdValue (adapter w) modelName (JObj (heap w data));
          (w1, options1) = (case options of None \<Rightarrow> alloc [] w | Some r \<Rightarrow> (w, r));
          w2 = (if \<not> nullish ident
                then w1\<lparr>heap := (heap w1)(options1 := set_prop ''docName'' ident (heap w1 options1))\<rparr>
                else w1)
      in (w2, options1))"

definition save :: "world \<Rightarrow> string \<Rightarrow> nat \<Rightarrow> nat option \<Rightarrow> obj outcome \<times> world" where
  "save w modelName data options =
     (let (w2, options1) = save_begin w modelName data options
      in and_then (connect w2) (\<lambda>h w3. insertAsync h (heap w3 data) (Some options1) w3))"

definition destroy :: "world \<Rightarrow> string \<Rightarrow> jsval \<Rightarrow> nat option \<Rightarrow> obj outcome \<times> world" where
  "destroy w modelName ident options =
     (case destroyById w modelName ident options of
        (Fulfilled r, w1) \<Rightarrow> (Fulfilled [(''count'', JNum 1)], w1)
      | (Rejected e, w1) \<Rightarrow> (Fulfilled [(''count'', JNum 0)], w1)
      | (Thrown e, w1) \<Rightarrow> (Thrown e, w1))"

definition replaceById :: "world \<Rightarrow> string \<Rightarrow> jsval \<Rightarrow> nat \<Rightarrow> nat option \<Rightarrow> jsval outcome \<times> world" where
  "replaceById w modelName ident data options =
     and_then
       (and_then (findById w modelName ident options) (\<lambda>res w1.
          save (w1\<lparr>heap := (heap w1)(data := set_prop ''_rev'' (prop_of res ''_rev'') (heap w1 data))\<rparr>)
            modelName data options))
       (\<lambda>saved w2. findById w2 modelName ident options)"

text \<open>
  \<^verbatim>\<open>Promise.map\<close> over the keys with the mapper
  \<^verbatim>\<open>this.findById(modelName, id, options).catchReturn(false)\<close>: the results stand in the
  order of the keys, whatever the order of completion; a mapper that throws rejects the
  whole map. The reads are independent of one another, so they are run in key order.
\<close>

fun find_each :: "string \<Rightarrow> nat option \<Rightarrow> jsval list \<Rightarrow> world \<Rightarrow> jsval list outcome \<times> world" where
  "find_each modelName options [] w = (Fulfilled [], w)"
| "find_each modelName options (k # ks) w =
     (case findById w modelName k options of
        (Thrown e, w1) \<Rightarrow> (Rejected e, w1)
      | (Rejected e, w1) \<Rightarrow>
          and_then (find_each modelName options ks w1) (\<lambda>rs w2. (Fulfilled (JBool False # rs), w2))
      | (Fulfilled d, w1) \<Rightarrow>
          and_then (find_each modelName options ks w1) (\<lambda>rs w2. (Fulfilled (d # rs), w2)))"

definition all :: "world \<Rightarrow> string \<Rightarrow> obj \<Rightarrow> nat option \<Rightarrow> jsval list outcome \<times> world" where
  "all w modelName query options =
     (if nullish (get_prop query ''where'') then (Fulfilled [], w)
      else (let keys = getKeysFromWhere (adapter w) modelName (get_prop query ''where'')
            in if truthy (JArr keys)
               then and_then (find_each modelName options keys w)
                      (\<lambda>rs w1. (Fulfilled (filter truthy rs), w1))
               else (Fulfilled [], w)))"

subsection \<open>Design documents and the database lifecycle\<close>

text \<open>
  The mapper of \<^verbatim>\<open>saveDesignDocs\<close> for one name: make the options object
  \<^verbatim>\<open>{ docName: _id }\<close>, read \<^verbatim>\<open>_design/<name>\<close>; when the read succeeds, write the
  stored document merged with the definition, otherwise write the definition; both with
  that options object.
\<close>

definition sync_one :: "handle \<Rightarrow> string \<Rightarrow> obj \<Rightarrow> world \<Rightarrow> obj outcome \<times> world" where
  "sync_one h name def w =
     (let ident = ''_design/'' @ name;
          (w1, options) = alloc [(''docName'', JStr ident)] w
      in case doc_get (couch w1) (bound_db h) (JStr ident) JUndefined of
           Inr data \<Rightarrow>
             (case data of
                JObj ob \<Rightarrow> insertAsync h (merge ob def) (Some options) w1
              | _ \<Rightarrow> (Rejected TypeError, w1))
         | Inl err \<Rightarrow> insertAsync h def (Some options) w1)"

text \<open>
  \<^verbatim>\<open>Promise.map\<close> over \<^verbatim>\<open>Object.keys(designDocs)\<close>: every name is processed, whether or
  not another one failed; the map is rejected when one of them is. The names of an
  object are distinct, so the documents are distinct and the per-name steps are run in
  the order of the names.
\<close>

fun sync_each :: "handle \<Rightarrow> (string \<times> obj) list \<Rightarrow> world \<Rightarrow> obj list outcome \<times> world" where
  "sync_each h [] w = (Fulfilled [], w)"
| "sync_each h (nd # rest) w =
     (case sync_one h (fst nd) (snd nd) w of
        (Fulfilled r, w1) \<Rightarrow>
          and_then (sync_each h rest w1) (\<lambda>rs w2. (Fulfilled (r # rs), w2))
      | (Rejected e, w1) \<Rightarrow> (Rejected e, snd (sync_each h rest w1))
      | (Thrown e, w1) \<Rightarrow> (Rejected e, snd (sync_each h rest w1)))"

definition saveDesignDocs :: "world \<Rightarrow> obj list outcome \<times> world" where
  "saveDesignDocs w =
     (case connect w of
        (Thrown e, w1) \<Rightarrow> (Thrown e, w1)
      | (Rejected e, w1) \<Rightarrow> (Rejected e, w1)
      | (Fulfilled h, w1) \<Rightarrow>
          (case designDocs (settings (adapter w1)) of
             None \<Rightarrow> (Thrown TypeError, w1)
           | Some dd \<Rightarrow> sync_each h dd w1))"

text \<open>The tail shared by both lifecycle hooks: "Create views."\<close>

definition create_views :: "jsval outcome \<times> world \<Rightarrow> jsval outcome \<times> world" where
  "create_views promise =
     (case designDocs (settings (adapter (snd promise))) of
        None \<Rightarrow> promise
      | Some dd \<Rightarrow>
          and_then promise (\<lambda>res w.
            and_then (saveDesignDocs w) (\<lambda>saved w1. (Fulfilled res, w1))))"

definition autoupdate :: "world \<Rightarrow> string list \<Rightarrow> jsval outcome \<times> world" where
  "autoupdate w models =
     create_views
       (and_then (and_then (connect w) (\<lambda>h w1. getDB w1)) (\<lambda>res w2.
          if truthy res then (Fulfilled res, w2)
          else and_then (db_createAsync (database (settings (adapter w2))) w2)
                 (\<lambda>created w3. getDB w3)))"

definition automigrate :: "world \<Rightarrow> string list \<Rightarrow> jsval outcome \<times> world" where
  "automigrate w models =
     create_views
       (and_then
          (and_then (and_then (connect w) (\<lambda>h w1. getDB w1)) (\<lambda>res w2.
             if \<not> truthy res then (Fulfilled JUndefined, w2)
             else db_destroyAsync (database (settings (adapter w2))) w2))
          (\<lambda>destroyed w3.
             and_then (db_createAsync (database (settings (adapter w3))) w3)
               (\<lambda>created w4. getDB w4)))"

section \<open>Notions the statements use\<close>

text \<open>
  What one key of \<^verbatim>\<open>all\<close> fetches in a world connected through \<open>h\<close>: the stored
  document, with the model's id property set from \<^verbatim>\<open>_id\<close>, when the store has one.
\<close>

definition fetched :: "world \<Rightarrow> handle \<Rightarrow> string \<Rightarrow> nat option \<Rightarrow> jsval \<Rightarrow> jsval option" where
  "fetched w h m options k =
     (case doc_get (couch w) (bound_db h) k (opt_val w options) of
        Inl e \<Rightarrow> None
      | Inr d \<Rightarrow> Some (setIdValue (adapter w) m d (prop_of d ''_id'')))"

text \<open>The revision and body the store holds under an id, if any.\<close>

definition stored :: "server \<Rightarrow> string \<Rightarrow> jsval \<Rightarrow> (nat \<times> obj) option" where
  "stored srv name ident =
     (case dbs srv name of
        None \<Rightarrow> None
      | Some d \<Rightarrow> (case ident of JStr s \<Rightarrow> d s | _ \<Rightarrow> None))"

text \<open>
  The database name a connector is configured for: \<^verbatim>\<open>settings.database || settings.db\<close>,
  when that is a non-empty string.
\<close>

definition configured_name :: "connector \<Rightarrow> string option" where
  "configured_name c = addressed (str_or (database (settings c)) (db (settings c)))"

text \<open>
  The state a connector is in between calls: a handle, when there is one, is bound to
  the configured database and is one of the handles made so far.
\<close>

definition coherent :: "world \<Rightarrow> bool" where
  "coherent w =
     (case connection (adapter w) of
        None \<Rightarrow> True
      | Some h \<Rightarrow> configured_name (adapter w) = Some (bound_db h) \<and> serial h < handles_made (adapter w))"

text \<open>The id of the design document of a name.\<close>

definition design_id :: "string \<Rightarrow> string" where
  "design_id name = ''_design/'' @ name"

text \<open>The document the store serves under an id of a database, if any.\<close>

definition document :: "server \<Rightarrow> string \<Rightarrow> string \<Rightarrow> obj option" where
  "document srv name s =
     (case stored srv name (JStr s) of None \<Rightarrow> None | Some (r, body) \<Rightarrow> Some (served s r body))"

text \<open>
  What the mapper of \<^verbatim>\<open>saveDesignDocs\<close> leaves under \<^verbatim>\<open>_design/<name>\<close>, given what
  was there: a definition is written as the first revision, the merge of a stored
  document with the definition as its next revision, and a write whose \<^verbatim>\<open>_rev\<close> is
  not the current one changes nothing.
\<close>

definition synced :: "string \<Rightarrow> obj \<Rightarrow> (nat \<times> obj) option \<Rightarrow> (nat \<times> obj) option" where
  "synced name def entry =
     (case entry of
        None \<Rightarrow> if get_prop def ''_rev'' = JUndefined then Some (1, def) else None
      | Some (r, body) \<Rightarrow>
          if get_prop (merge (served (design_id name) r body) def) ''_rev'' = JNum (int r)
          then Some (Suc r, merge (served (design_id name) r body) def)
          else Some (r, body))"


section \<open>Example worlds\<close>

text \<open>A client whose insert deletes the \<^verbatim>\<open>docName\<close> it was given.\<close>

definition without_docName :: "obj \<Rightarrow> obj" where
  "without_docName ob = filter (\<lambda>p. fst p \<noteq> ''docName'') ob"

text \<open>
  A connector configured for the database \<^verbatim>\<open>app\<close>, which holds the documents \<^verbatim>\<open>a\<close>
  and \<^verbatim>\<open>b\<close>, behind such a client; the caller's heap holds a record with an id, a
  record without one and an option bag.
\<close>

definition example_settings :: settings where
  "example_settings = \<lparr>database = Some ''app'', db = None, designDocs = None\<rparr>"

definition example_db :: database where
  "example_db = ((\<lambda>s. None)(''a'' \<mapsto> (1, [(''name'', JStr ''Ann'')]), ''b'' \<mapsto> (2, [(''name'', JStr ''Bob'')])))"

definition example_server :: server where
  "example_server =
     \<lparr>dbs = ((\<lambda>n. None)(''app'' \<mapsto> example_db)), uuids = (\<lambda>n. replicate (Suc n) CHR ''u''),
      uuid_seq = 0, root = None, insert_keeps = without_docName\<rparr>"

definition example_heap :: "nat \<Rightarrow> obj" where
  "example_heap = (\<lambda>a. [])(0 := [(''id'', JStr ''c''), (''name'', JStr ''Cy'')],
                              1 := [(''name'', JStr ''Dan'')],
                              2 := [(''batch'', JBool True)])"

definition example_world :: world where
  "example_world =
     \<lparr>adapter = CouchDB example_settings (\<lambda>m. ''id''), couch = example_server,
      heap = example_heap, brk = 3\<rparr>"

text \<open>A connector without a database name.\<close>

definition unnamed_world :: world where
  "unnamed_world =
     example_world\<lparr>adapter := CouchDB \<lparr>database = None, db = Some [], designDocs = None\<rparr> (\<lambda>m. ''id'')\<rparr>"

text \<open>
  A connector whose database name is given under the key \<^verbatim>\<open>db\<close> only, on a server whose
  root answers \<open>r\<close>; and a server without any database.
\<close>

definition db_key_settings :: settings where
  "db_key_settings = \<lparr>database = None, db = Some ''app'', designDocs = None\<rparr>"

definition db_key_world :: "jsval option \<Rightarrow> world" where
  "db_key_world r =
     example_world\<lparr>adapter := CouchDB db_key_settings (\<lambda>m. ''id''), couch := example_server\<lparr>root := r\<rparr>\<rparr>"

definition bare_server :: "jsval option \<Rightarrow> server" where
  "bare_server r = example_server\<lparr>dbs := (\<lambda>n. None), root := r\<rparr>"

text \<open>
  A connector with one design document, \<^verbatim>\<open>v\<close>, on a store that already holds
  \<^verbatim>\<open>_design/v\<close> with a field of another writer.
\<close>

definition design_settings :: settings where
  "design_settings =
     \<lparr>database = Some ''app'', db = None,
      designDocs = Some [(''v'', [(''views'', JStr ''by_name''), (''language'', JStr ''javascript'')])]\<rparr>"

definition design_world :: world where
  "design_world =
     example_world\<lparr>adapter := CouchDB design_settings (\<lambda>m. ''id''),
       couch := example_server\<lparr>dbs := (dbs example_server)(''app'' \<mapsto>
         example_db(''_design/v'' \<mapsto> (3, [(''views'', JStr ''old''), (''extra'', JStr ''kept'')])))\<rparr>\<rparr>"

section \<open>Basic facts\<close>

subsection \<open>Promises and connections\<close>

lemma prop_set_prop: "get_prop (set_prop k v ob) k' = (if k' = k then v else get_prop ob k')"
  by (induction ob) (auto simp: get_prop_def)

lemma and_then_simps:
  "and_then (Rejected e, s) f = (Rejected e, s)"
  "and_then (Thrown e, s) f = (Thrown e, s)"
  "and_then (Fulfilled x, s) f = (case fst (f x s) of Thrown e \<Rightarrow> (Rejected e, snd (f x s)) | _ \<Rightarrow> f x s)"
  by (simp_all add: and_then_def split: outcome.splits)

lemma connect_connected:
  "connection (adapter w) = Some h \<Longrightarrow> connect w = (Fulfilled h, w)"
  by (simp add: connect_def)

lemma connect_cases:
  "(\<exists>h. connect w = (Fulfilled h, snd (connect w)) \<and> connection (adapter (snd (connect w))) = Some h)
   \<or> connect w = (Thrown ConfigurationError, w)"
  by (auto simp: connect_def Let_def split: option.splits)

lemma connect_fulfilled:
  assumes "fst (connect w) = Fulfilled h"
  shows "connection (adapter (snd (connect w))) = Some h"
    and "couch (snd (connect w)) = couch w"
    and "heap (snd (connect w)) = heap w"
    and "brk (snd (connect w)) = brk w"
    and "idName (adapter (snd (connect w))) = idName (adapter w)"
    and "settings (adapter (snd (connect w))) = settings (adapter w)"
  using assms by (auto simp: connect_def Let_def split: option.splits if_splits)

subsection \<open>Reads through a connected handle\<close>

lemma doc_get_obj: "doc_get srv n k opts = Inr d \<Longrightarrow> \<exists>ob. d = JObj ob"
  by (auto simp: doc_get_def split: option.splits jsval.splits)

lemma findById_connected:
  assumes "connection (adapter w) = Some h"
  shows "findById w m k options =
     (case fetched w h m options k of None \<Rightarrow> (Rejected NotFound, w) | Some d \<Rightarrow> (Fulfilled d, w))"
  using assms
  apply (simp add: findById_def connect_connected and_then_simps fetched_def split: sum.splits)
  apply (auto simp: doc_get_def split: option.splits jsval.splits)
  done

lemma fetched_cong:
  assumes "couch w' = couch w" and "heap w' = heap w" and "idName (adapter w') = idName (adapter w)"
  shows "fetched w' h m options k = fetched w h m options k"
  unfolding fetched_def opt_val_def setIdValue_def assms ..

lemma fetched_truthy: "fetched w h m options k = Some d \<Longrightarrow> truthy d"
  by (auto simp: fetched_def setIdValue_def split: sum.splits dest!: doc_get_obj)

lemma find_each_connected:
  assumes "connection (adapter w) = Some h"
  shows "find_each m options ks w =
     (Fulfilled (map (\<lambda>k. case fetched w h m options k of None \<Rightarrow> JBool False | Some d \<Rightarrow> d) ks), w)"
  using assms
  by (induction ks) (auto simp: findById_connected and_then_simps split: option.splits)

lemma filter_truthy_fetched:
  "filter truthy (map (\<lambda>k. case fetched w h m options k of None \<Rightarrow> JBool False | Some d \<Rightarrow> d) ks)
   = List.map_filter (fetched w h m options) ks"
  by (induction ks) (auto simp: List.map_filter_simps fetched_truthy split: option.splits)


subsection \<open>Documents that are, or are not, in the store\<close>

lemma connect_fulfilledE:
  assumes "fst (connect w) = Fulfilled h"
  obtains w1 where "connect w = (Fulfilled h, w1)" and "connection (adapter w1) = Some h"
    and "couch w1 = couch w" and "heap w1 = heap w" and "brk w1 = brk w"
    and "idName (adapter w1) = idName (adapter w)"
    and "settings (adapter w1) = settings (adapter w)"
proof -
  obtain w1 where cw: "connect w = (Fulfilled h, w1)"
    using assms by (cases "connect w") auto
  show thesis
    using connect_fulfilled[OF assms] by (intro that[of w1]) (simp_all add: cw)
qed

lemma doc_get_stored:
  "doc_get srv name ident opts =
     (case stored srv name ident of
        None \<Rightarrow> Inl NotFound
      | Some rb \<Rightarrow> (case ident of JStr s \<Rightarrow> Inr (JObj (served s (fst rb) (snd rb))) | _ \<Rightarrow> Inl NotFound))"
  by (auto simp: doc_get_def stored_def split: option.splits jsval.splits)

lemma served_id_rev:
  "get_prop (served s r body) ''_id'' = JStr s"
  "get_prop (served s r body) ''_rev'' = JNum (int r)"
  by (simp_all add: served_def prop_set_prop)

lemma stored_JStr: "stored srv name ident = Some rb \<Longrightarrow> \<exists>s. ident = JStr s"
  by (auto simp: stored_def split: option.splits jsval.splits)

lemma findById_absent:
  assumes "connection (adapter w) = Some h" and "stored (couch w) (bound_db h) ident = None"
  shows "findById w m ident options = (Rejected NotFound, w)"
  using assms by (simp add: findById_def connect_connected and_then_simps doc_get_stored)

lemma destroyById_absent:
  assumes "connection (adapter w) = Some h" and "stored (couch w) (bound_db h) ident = None"
  shows "destroyById w m ident options = (Rejected NotFound, w)"
  using assms by (simp add: destroyById_def connect_connected and_then_simps doc_get_stored)

lemma destroyById_present:
  assumes "connection (adapter w) = Some h" and "stored (couch w) (bound_db h) ident = Some rb"
  shows "\<exists>r w'. destroyById w m ident options = (Fulfilled r, w')
          \<and> connection (adapter w') = Some h
          \<and> stored (couch w') (bound_db h) ident = None"
proof -
  obtain s where s: "ident = JStr s" using stored_JStr[OF assms(2)] by blast
  obtain d where d: "dbs (couch w) (bound_db h) = Some d" "d s = Some rb"
    using assms(2) by (auto simp: stored_def s split: option.splits)
  show ?thesis
    using assms(1) d
    by (cases rb)
       (simp add: destroyById_def connect_connected and_then_simps doc_get_def s served_id_rev
          doc_destroy_def stored_def)
qed

lemma destroyById_connected_not_thrown:
  assumes "connection (adapter w) = Some h"
  shows "\<forall>e. fst (destroyById w m ident options) \<noteq> Thrown e"
  using assms
  by (auto simp: destroyById_def connect_connected and_then_simps split: sum.splits prod.splits outcome.splits)

lemma example_connect: "fst (connect example_world) = Fulfilled \<lparr>serial = 0, bound_db = ''app''\<rparr>"
  by (simp add: connect_def example_world_def CouchDB_def example_settings_def str_or_def Let_def)

lemma destroyById_after_connect:
  assumes "connect w = (Fulfilled h, w1)" and "connection (adapter w1) = Some h"
  shows "destroyById w m ident options = destroyById w1 m ident options"
  by (simp add: destroyById_def assms(1) connect_connected[OF assms(2)])

subsection \<open>Connecting and disconnecting\<close>

lemma connect_unnamed:
  "connection (adapter w) = None \<Longrightarrow> configured_name (adapter w) = None
   \<Longrightarrow> connect w = (Thrown ConfigurationError, w)"
  by (auto simp: connect_def configured_name_def addressed_def split: option.splits if_splits)

lemma connect_named:
  "connection (adapter w) = None \<Longrightarrow> configured_name (adapter w) = Some n
   \<Longrightarrow> connect w = (Fulfilled \<lparr>serial = handles_made (adapter w), bound_db = n\<rparr>,
         w\<lparr>adapter := (adapter w)\<lparr>connection := Some \<lparr>serial = handles_made (adapter w), bound_db = n\<rparr>,
                                 handles_made := Suc (handles_made (adapter w))\<rparr>\<rparr>)"
  by (auto simp: connect_def configured_name_def addressed_def Let_def split: option.splits if_splits)

lemma coherent_connect: "coherent w \<Longrightarrow> coherent (snd (connect w))"
  by (cases "connection (adapter w)"; cases "configured_name (adapter w)")
     (auto simp: connect_unnamed connect_named connect_connected coherent_def configured_name_def)

lemma coherent_disconnect: "coherent w \<Longrightarrow> coherent (snd (disconnect w))"
  by (auto simp: disconnect_def coherent_def split: option.splits)

lemma disconnect_result:
  "fst (disconnect w) = Fulfilled True" "connection (adapter (snd (disconnect w))) = None"
  "settings (adapter (snd (disconnect w))) = settings (adapter w)"
  "handles_made (adapter (snd (disconnect w))) = handles_made (adapter w)"
  by (auto simp: disconnect_def split: option.splits)

lemmas example_defs = example_world_def example_server_def example_db_def example_settings_def
  example_heap_def CouchDB_def

lemmas lifecycle_defs = automigrate_def autoupdate_def create_views_def getDB_def db_createAsync_def
  db_destroyAsync_def db_get_def db_create_def db_destroy_def addressed_def connect_def str_or_def
  and_then_def Let_def

subsection \<open>What an operation leaves alone\<close>

lemma connect_frame:
  "heap (snd (connect w)) = heap w" "brk (snd (connect w)) = brk w" "couch (snd (connect w)) = couch w"
  "idName (adapter (snd (connect w))) = idName (adapter w)"
  "settings (adapter (snd (connect w))) = settings (adapter w)"
  by (auto simp: connect_def Let_def split: option.splits)

lemma insertAsync_frame:
  "brk (snd (insertAsync h doc options w)) = brk w"
  "adapter (snd (insertAsync h doc options w)) = adapter w"
  "heap (snd (insertAsync h doc options w)) =
     (case options of None \<Rightarrow> heap w | Some r \<Rightarrow> (heap w)(r := consumed (couch w) (heap w r)))"
  by (auto simp: insertAsync_def Let_def split: prod.splits sum.splits option.splits)

lemma insertAsync_heap_other:
  "options \<noteq> Some a \<Longrightarrow> heap (snd (insertAsync h doc options w)) a = heap w a"
  by (auto simp: insertAsync_frame split: option.splits)

lemma insertAsync_store:
  "fst (insertAsync h doc options w) =
     (case fst (doc_insert (couch w) (bound_db h) doc (opt_val w options)) of
        Inl e \<Rightarrow> Rejected e | Inr r \<Rightarrow> Fulfilled r)"
  "couch (snd (insertAsync h doc options w)) = snd (doc_insert (couch w) (bound_db h) doc (opt_val w options))"
  by (auto simp: insertAsync_def Let_def split: prod.splits sum.splits)

lemma insertAsync_not_thrown: "fst (insertAsync h doc options w) \<noteq> Thrown e"
  by (auto simp: insertAsync_store split: sum.splits)

lemma and_then_snd:
  "snd (and_then p f) = (case fst p of Fulfilled x \<Rightarrow> snd (f x (snd p)) | _ \<Rightarrow> snd p)"
  by (auto simp: and_then_def split: outcome.splits)

lemma findById_frame:
  "heap (snd (findById w m k options)) = heap w" "brk (snd (findById w m k options)) = brk w"
  "couch (snd (findById w m k options)) = couch w"
  by (auto simp: findById_def and_then_snd connect_frame split: outcome.splits sum.splits)

lemma save_begin_Some:
  "save_begin w m data (Some opts) =
     (if nullish (getIdValue (adapter w) m (JObj (heap w data))) then w
      else w\<lparr>heap := (heap w)(opts := set_prop ''docName'' (getIdValue (adapter w) m (JObj (heap w data)))
                                         (heap w opts))\<rparr>,
      opts)"
  by (simp add: save_begin_def Let_def)

lemma save_begin_None:
  "save_begin w m data None =
     (if nullish (getIdValue (adapter w) m (JObj (heap w data)))
      then w\<lparr>heap := (heap w)(brk w := []), brk := Suc (brk w)\<rparr>
      else w\<lparr>heap := (heap w)(brk w := [(''docName'', getIdValue (adapter w) m (JObj (heap w data)))]),
             brk := Suc (brk w)\<rparr>,
      brk w)"
  by (simp add: save_begin_def Let_def alloc_def)

lemma save_begin_frame:
  "adapter (fst (save_begin w m data options)) = adapter w"
  "couch (fst (save_begin w m data options)) = couch w"
  "options \<noteq> Some (snd (save_begin w m data options)) \<Longrightarrow> snd (save_begin w m data options) = brk w"
  "a < brk w \<Longrightarrow> options \<noteq> Some a \<Longrightarrow> heap (fst (save_begin w m data options)) a = heap w a"
  "a < brk w \<Longrightarrow> options \<noteq> Some a \<Longrightarrow> snd (save_begin w m data options) \<noteq> a"
  by (cases options; auto simp: save_begin_Some save_begin_None)+

lemma save_unfold:
  "save w m data options =
     and_then (connect (fst (save_begin w m data options)))
       (\<lambda>h w3. insertAsync h (heap w3 data) (Some (snd (save_begin w m data options))) w3)"
  by (simp add: save_def split: prod.splits)

lemma save_heap:
  "heap (snd (save w m data (Some opts))) opts =
     (case fst (connect w) of
        Fulfilled h \<Rightarrow> consumed (couch w) (heap (fst (save_begin w m data (Some opts))) opts)
      | _ \<Rightarrow> heap (fst (save_begin w m data (Some opts))) opts)"
proof -
  let ?w2 = "fst (save_begin w m data (Some opts))"
  have o: "snd (save_begin w m data (Some opts)) = opts" by (simp add: save_begin_Some)
  have f: "fst (connect ?w2) = fst (connect w)"
    by (simp add: save_begin_Some connect_def Let_def split: option.splits)
  show ?thesis
    by (simp add: save_unfold o and_then_snd f insertAsync_frame connect_frame save_begin_frame
        split: outcome.splits)
qed

lemma save_heap_other:
  assumes "a < brk w" and "options \<noteq> Some a"
  shows "heap (snd (save w m data options)) a = heap w a"
proof -
  have n: "Some (snd (save_begin w m data options)) \<noteq> Some a"
    using save_begin_frame(5)[OF assms] by simp
  show ?thesis
    using n by (simp add: save_unfold and_then_snd connect_frame insertAsync_heap_other
        save_begin_frame(4)[OF assms] split: outcome.splits)
qed

lemma create_heap:
  assumes "a < brk w" and "options \<noteq> Some a"
  shows "heap (snd (create w m data options)) a = heap w a"
  using assms
  by (auto simp: create_def Let_def and_then_snd connect_frame insertAsync_heap_other alloc_def
       and_then_simps split: outcome.splits prod.splits if_splits)

lemma replaceById_heap:
  assumes "fst (findById w m ident options) = Fulfilled res" and "data < brk w" and "options \<noteq> Some data"
  shows "heap (snd (replaceById w m ident data options)) data
         = set_prop ''_rev'' (prop_of res ''_rev'') (heap w data)"
proof -
  obtain w1 where f: "findById w m ident options = (Fulfilled res, w1)"
    using assms(1) by (cases "findById w m ident options") auto
  have w1: "heap w1 = heap w" "brk w1 = brk w"
    using findById_frame(1,2)[of w m ident options] by (simp_all add: f)
  let ?w1 = "w1\<lparr>heap := (heap w1)(data := set_prop ''_rev'' (prop_of res ''_rev'') (heap w1 data))\<rparr>"
  have s: "heap (snd (save ?w1 m data options)) data = set_prop ''_rev'' (prop_of res ''_rev'') (heap w data)"
    using assms(2,3) by (subst save_heap_other) (simp_all add: w1)
  show ?thesis
    using s
    by (simp add: replaceById_def f and_then_simps and_then_snd findById_frame
        split: outcome.splits)
qed

lemma consumed_quiet: "\<not> truthy (get_prop ob ''docName'') \<Longrightarrow> consumed srv ob = ob"
  by (simp add: consumed_def)

lemma create_heap_quiet:
  assumes "a < brk w" and "\<not> truthy (prop_of (opt_val w options) ''docName'')"
  shows "heap (snd (create w m data options)) a = heap w a"
proof (cases "options = Some a")
  case False
  with assms(1) show ?thesis by (rule create_heap)
next
  case True
  have q: "\<not> truthy (get_prop (heap w a) ''docName'')"
    using assms(2) by (simp add: True opt_val_def)
  show ?thesis
    using assms(1) q
    by (auto simp: True create_def Let_def and_then_snd connect_frame insertAsync_frame alloc_def
        consumed_quiet split: outcome.splits prod.splits if_splits)
qed

lemma create_heap_gen:
  assumes "a < brk w" and "options = Some a \<longrightarrow> \<not> truthy (get_prop (heap w a) ''docName'')"
  shows "heap (snd (create w m data options)) a = heap w a"
proof (cases "options = Some a")
  case False
  with assms(1) show ?thesis by (rule create_heap)
next
  case True
  with assms(2) have "\<not> truthy (prop_of (opt_val w options) ''docName'')"
    by (simp add: opt_val_def)
  with assms(1) show ?thesis by (rule create_heap_quiet)
qed

lemma connect_fst_cong: "adapter w' = adapter w \<Longrightarrow> fst (connect w') = fst (connect w)"
  by (simp add: connect_def Let_def split: option.splits)

lemma save_outcome:
  assumes "fst (connect w) = Fulfilled h"
  shows "fst (save w m data (Some opts)) =
     (case fst (doc_insert (couch w) (bound_db h)
                  (heap (fst (save_begin w m data (Some opts))) data)
                  (JObj (heap (fst (save_begin w m data (Some opts))) opts))) of
        Inl e \<Rightarrow> Rejected e
      | Inr r \<Rightarrow> Fulfilled r)"
proof -
  let ?w2 = "fst (save_begin w m data (Some opts))"
  have a: "adapter ?w2 = adapter w" by (rule save_begin_frame)
  have f: "fst (connect ?w2) = Fulfilled h"
    using assms by (simp add: connect_fst_cong[OF a])
  from f obtain w3 where w3: "connect ?w2 = (Fulfilled h, w3)" "couch w3 = couch ?w2" "heap w3 = heap ?w2"
    by (rule connect_fulfilledE)
  have o: "snd (save_begin w m data (Some opts)) = opts" by (simp add: save_begin_Some)
  show ?thesis
    by (simp add: save_unfold o w3 and_then_simps insertAsync_store insertAsync_not_thrown
        opt_val_def save_begin_frame(2) split: outcome.splits sum.splits)
qed

subsection \<open>Writes that go through\<close>

lemma put_doc_ok:
  assumes "put_doc srv name d s doc = (Inr r, srv')" and "dbs srv name = Some d"
  shows "\<exists>rv. r = [(''ok'', JBool True), (''id'', JStr s), (''rev'', JNum (int rv))]
            \<and> stored srv' name (JStr s) = Some (rv, doc)"
  using assms by (auto simp: put_doc_def Let_def stored_def split: if_splits)

lemma doc_insert_ok:
  assumes "doc_insert srv name doc opts = (Inr r, srv')"
    and "\<not> truthy (prop_of opts ''docName'')"
  shows "\<exists>rv s. r = [(''ok'', JBool True), (''id'', JStr s), (''rev'', JNum (int rv))]
            \<and> stored srv' name (JStr s) = Some (rv, doc)
            \<and> (case get_prop doc ''_id'' of
                  JUndefined \<Rightarrow> s = uuids srv (uuid_seq srv)
                | v \<Rightarrow> v = JStr s)"
proof -
  obtain d where d: "dbs srv name = Some d"
    using assms(1) by (auto simp: doc_insert_def split: option.splits)
  have nd: "\<not> truthy (if truthy opts then prop_of opts ''docName'' else JUndefined)"
    using assms(2) by simp
  show ?thesis
  proof (cases "get_prop doc ''_id''")
    case JUndefined
    then have "put_doc (srv\<lparr>uuid_seq := Suc (uuid_seq srv)\<rparr>) name d (uuids srv (uuid_seq srv)) doc = (Inr r, srv')"
      using assms(1) nd by (simp add: doc_insert_def d Let_def)
    from put_doc_ok[OF this] show ?thesis by (auto simp: d JUndefined)
  next
    case (JStr s)
    then have "put_doc srv name d s doc = (Inr r, srv')"
      using assms(1) nd by (simp add: doc_insert_def d Let_def split: if_splits)
    from put_doc_ok[OF this d] show ?thesis by (auto simp: JStr)
  qed (use assms(1) nd in \<open>simp_all add: doc_insert_def d Let_def\<close>)
qed

lemma connect_heap_update:
  "connect (w\<lparr>heap := H, brk := B\<rparr>) = (fst (connect w), (snd (connect w))\<lparr>heap := H, brk := B\<rparr>)"
  by (auto simp: connect_def Let_def split: option.splits)

lemmas create_defs = create_def Let_def alloc_def connect_def and_then_def insertAsync_def
  doc_insert_def put_doc_def getIdValue_def get_prop_def opt_val_def str_or_def

lemma example_create_with_id:
  "create example_world ''Person'' 0 None =
     (Fulfilled [JStr ''c'', JNum 1],
      example_world\<lparr>adapter := (adapter example_world)\<lparr>connection := Some \<lparr>serial = 0, bound_db = ''app''\<rparr>,
                                     handles_made := 1\<rparr>,
                    couch := example_server\<lparr>dbs := (dbs example_server)(''app'' \<mapsto>
                      example_db(''c'' \<mapsto> (1, [(''id'', JStr ''c''), (''name'', JStr ''Cy''), (''_id'', JStr ''c'')])))\<rparr>,
                    heap := example_heap(3 := [(''id'', JStr ''c''), (''name'', JStr ''Cy''), (''_id'', JStr ''c'')]),
                    brk := 4\<rparr>)"
  by (simp add: create_defs example_defs)

lemma example_create_without_id:
  "create example_world ''Person'' 1 None =
     (Fulfilled [JStr ''u'', JNum 1],
      example_world\<lparr>adapter := (adapter example_world)\<lparr>connection := Some \<lparr>serial = 0, bound_db = ''app''\<rparr>,
                                     handles_made := 1\<rparr>,
                    couch := example_server\<lparr>dbs := (dbs example_server)(''app'' \<mapsto>
                      example_db(''u'' \<mapsto> (1, [(''name'', JStr ''Dan'')]))), uuid_seq := 1\<rparr>\<rparr>)"
  by (simp add: create_defs example_defs)

subsection \<open>The mapper of saveDesignDocs, one name at a time\<close>

lemma get_prop_fold_set:
  "get_prop (fold (\<lambda>k acc. set_prop k (f k) acc) ks t) k' = (if k' \<in> set ks then f k' else get_prop t k')"
  by (induction ks arbitrary: t) (auto simp: prop_set_prop)

lemma get_prop_merge:
  "get_prop (merge t s) k = (if k \<in> set (object_keys s) then get_prop s k else get_prop t k)"
  by (simp add: merge_def get_prop_fold_set)

lemma get_prop_served:
  "get_prop (served s r body) k =
     (if k = ''_rev'' then JNum (int r) else if k = ''_id'' then JStr s else get_prop body k)"
  by (simp add: served_def prop_set_prop)

lemma get_prop_Cons: "get_prop ((k, v) # ob) k' = (if k = k' then v else get_prop ob k')"
  and get_prop_Nil: "get_prop [] k' = JUndefined"
  by (simp_all add: get_prop_def)

lemma doc_insert_docName:
  assumes "dbs srv name = Some d"
  shows "doc_insert srv name doc (JObj [(''docName'', JStr (design_id n))]) = put_doc srv name d (design_id n) doc"
  using assms by (simp add: doc_insert_def get_prop_Cons design_id_def)

lemma sync_one_unfold:
  assumes "dbs (couch w) (bound_db h) = Some d"
  shows "sync_one h name def w =
     insertAsync h
       (case d (design_id name) of
          None \<Rightarrow> def
        | Some rb \<Rightarrow> merge (served (design_id name) (fst rb) (snd rb)) def)
       (Some (brk w)) (fst (alloc [(''docName'', JStr (design_id name))] w))"
  using assms
  by (simp add: sync_one_def Let_def doc_get_def design_id_def alloc_def split: option.splits prod.splits)

lemma sync_one_couch:
  assumes "dbs (couch w) (bound_db h) = Some d"
  shows "couch (snd (sync_one h name def w)) =
     snd (put_doc (couch w) (bound_db h) d (design_id name)
            (case d (design_id name) of
               None \<Rightarrow> def
             | Some rb \<Rightarrow> merge (served (design_id name) (fst rb) (snd rb)) def))"
  by (simp add: sync_one_unfold[OF assms] insertAsync_store alloc_def opt_val_def
      doc_insert_docName[OF assms])

lemma sync_one_frame:
  "adapter (snd (sync_one h name def w)) = adapter w"
  by (auto simp: sync_one_def Let_def insertAsync_frame alloc_def split: sum.splits jsval.splits)

lemma sync_one_no_db:
  assumes "dbs (couch w) (bound_db h) = None"
  shows "couch (snd (sync_one h name def w)) = couch w"
  using assms
  by (simp add: sync_one_def Let_def doc_get_def insertAsync_store doc_insert_def alloc_def)

lemma sync_one_db:
  assumes "dbs (couch w) (bound_db h) = Some d"
  shows "dbs (couch (snd (sync_one h name def w))) (bound_db h)
         = Some (d(design_id name := synced name def (d (design_id name))))"
proof (cases "d (design_id name)")
  case None
  then show ?thesis
    using assms
    by (simp add: sync_one_couch[OF assms] put_doc_def Let_def synced_def fun_upd_idem)
next
  case (Some rb)
  obtain r body where rb: "rb = (r, body)" by (cases rb)
  show ?thesis
    using assms Some
    by (simp add: rb sync_one_couch[OF assms] put_doc_def Let_def synced_def fun_upd_idem)
qed

lemma sync_one_other_db:
  assumes "n \<noteq> bound_db h"
  shows "dbs (couch (snd (sync_one h name def w))) n = dbs (couch w) n"
proof (cases "dbs (couch w) (bound_db h)")
  case None
  then show ?thesis by (simp add: sync_one_no_db)
next
  case (Some d)
  show ?thesis
    using assms
    by (simp add: sync_one_couch[OF Some] put_doc_def Let_def split: option.splits)
qed

subsection \<open>All names of saveDesignDocs\<close>

lemma design_id_inj: "design_id a = design_id b \<longleftrightarrow> a = b"
  by (simp add: design_id_def)

lemma sync_one_exists:
  "(dbs (couch (snd (sync_one h name def w))) n = None) = (dbs (couch w) n = None)"
proof (cases "n = bound_db h")
  case True
  then show ?thesis
    by (cases "dbs (couch w) (bound_db h)") (simp_all add: sync_one_no_db sync_one_db)
next
  case False
  then show ?thesis by (simp add: sync_one_other_db)
qed

lemma sync_one_stored:
  "stored (couch (snd (sync_one h name def w))) (bound_db h) (JStr s) =
     (if dbs (couch w) (bound_db h) = None then None
      else if s = design_id name then synced name def (stored (couch w) (bound_db h) (JStr s))
      else stored (couch w) (bound_db h) (JStr s))"
  by (cases "dbs (couch w) (bound_db h)") (simp_all add: sync_one_no_db sync_one_db stored_def)

lemma sync_each_snd:
  "snd (sync_each h (nd # rest) w) = snd (sync_each h rest (snd (sync_one h (fst nd) (snd nd) w)))"
  by (cases "sync_one h (fst nd) (snd nd) w")
     (auto simp: and_then_snd split: outcome.splits)

lemma sync_each_frame:
  "adapter (snd (sync_each h dd w)) = adapter w"
proof (induction dd arbitrary: w)
  case Nil
  show ?case by simp
next
  case (Cons nd rest)
  show ?case by (simp only: sync_each_snd Cons.IH sync_one_frame)
qed

lemma sync_each_exists:
  "(dbs (couch (snd (sync_each h dd w))) n = None) = (dbs (couch w) n = None)"
proof (induction dd arbitrary: w)
  case Nil
  show ?case by simp
next
  case (Cons nd rest)
  show ?case by (simp only: sync_each_snd Cons.IH sync_one_exists)
qed

lemma sync_each_other_db:
  "n \<noteq> bound_db h \<Longrightarrow> dbs (couch (snd (sync_each h dd w))) n = dbs (couch w) n"
proof (induction dd arbitrary: w)
  case Nil
  show ?case by simp
next
  case (Cons nd rest)
  show ?case by (simp only: sync_each_snd Cons.IH[OF Cons.prems] sync_one_other_db[OF Cons.prems])
qed

lemma stored_no_db: "dbs srv n = None \<Longrightarrow> stored srv n ident = None"
  by (simp add: stored_def)

lemma sync_each_stored_other:
  assumes "s \<notin> design_id ` fst ` set dd"
  shows "stored (couch (snd (sync_each h dd w))) (bound_db h) (JStr s) = stored (couch w) (bound_db h) (JStr s)"
  using assms
proof (induction dd arbitrary: w)
  case Nil
  show ?case by simp
next
  case (Cons nd rest)
  have 1: "s \<notin> design_id ` fst ` set rest" and 2: "s \<noteq> design_id (fst nd)"
    using Cons.prems by auto
  show ?case
    using 2 by (simp add: sync_each_snd Cons.IH[OF 1] sync_one_stored stored_no_db del: sync_each.simps)
qed

lemma sync_each_stored_design:
  assumes "distinct (map fst dd)" and "(name, def) \<in> set dd" and "dbs (couch w) (bound_db h) \<noteq> None"
  shows "stored (couch (snd (sync_each h dd w))) (bound_db h) (JStr (design_id name))
         = synced name def (stored (couch w) (bound_db h) (JStr (design_id name)))"
  using assms
proof (induction dd arbitrary: w)
  case Nil
  then show ?case by simp
next
  case (Cons nd rest)
  let ?w1 = "snd (sync_one h (fst nd) (snd nd) w)"
  have ex: "dbs (couch ?w1) (bound_db h) \<noteq> None"
    using Cons.prems(3) by (simp add: sync_one_exists)
  from Cons.prems(3) obtain d0 where d0: "dbs (couch w) (bound_db h) = Some d0" by auto
  show ?case
  proof (cases "nd = (name, def)")
    case True
    have "design_id name \<notin> design_id ` fst ` set rest"
      using Cons.prems(1) True by (force simp: design_id_inj image_iff)
    then show ?thesis
      by (simp add: sync_each_snd sync_each_stored_other sync_one_stored True d0 del: sync_each.simps)
  next
    case False
    then have in_rest: "(name, def) \<in> set rest" using Cons.prems(2) by auto
    then have ne: "fst nd \<noteq> name" using Cons.prems(1) by (force simp: image_iff)
    have d: "distinct (map fst rest)" using Cons.prems(1) by simp
    show ?thesis
      using ne
      by (simp add: sync_each_snd Cons.IH[OF d in_rest ex] sync_one_stored design_id_inj d0
          del: sync_each.simps)
  qed
qed


lemma get_prop_absent: "k \<notin> set (object_keys ob) \<Longrightarrow> get_prop ob k = JUndefined"
  by (simp add: get_prop_def object_keys_def map_of_eq_None_iff[THEN iffD2])

lemma synced_idem:
  "(synced name def D = None \<and> synced name def (synced name def D) = None)
   \<or> (\<exists>r b r2 b2. synced name def D = Some (r, b) \<and> synced name def (synced name def D) = Some (r2, b2)
        \<and> (\<forall>k. k \<noteq> ''_rev'' \<longrightarrow>
              get_prop (served (design_id name) r2 b2) k = get_prop (served (design_id name) r b) k))"
proof (cases D)
  case None
  show ?thesis
    by (cases "''_rev'' \<in> set (object_keys def)")
       (auto simp: None synced_def get_prop_merge get_prop_served get_prop_absent)
next
  case (Some rb)
  obtain r b where rb: "rb = (r, b)" by (cases rb)
  show ?thesis
    by (cases "''_rev'' \<in> set (object_keys def)")
       (auto simp: Some rb synced_def get_prop_merge get_prop_served get_prop_absent)
qed

lemma synced_keeps:
  "\<exists>r' b'. synced name def (Some (r, b)) = Some (r', b')
     \<and> (\<forall>k. k \<notin> set (object_keys def) \<and> k \<noteq> ''_rev'' \<longrightarrow>
           get_prop (served (design_id name) r' b') k = get_prop (served (design_id name) r b) k)"
  by (auto simp: synced_def get_prop_merge get_prop_served)

lemma synced_overwrites:
  assumes "''_rev'' \<notin> set (object_keys def)"
  shows "\<exists>r' b'. synced name def D = Some (r', b')
     \<and> (\<forall>k \<in> set (object_keys def). k \<noteq> ''_id'' \<longrightarrow>
           get_prop (served (design_id name) r' b') k = get_prop def k)"
proof (cases D)
  case None
  show ?thesis
    using assms by (auto simp: None synced_def get_prop_served get_prop_absent)
next
  case (Some rb)
  obtain r b where rb: "rb = (r, b)" by (cases rb)
  show ?thesis
    using assms by (auto simp: Some rb synced_def get_prop_merge get_prop_served)
qed

lemma saveDesignDocs_snd:
  assumes "fst (connect w) = Fulfilled h" and "designDocs (settings (adapter w)) = Some dd"
  shows "snd (saveDesignDocs w) = snd (sync_each h dd (snd (connect w)))"
proof -
  from assms(1) obtain w1 where w1: "connect w = (Fulfilled h, w1)"
    "settings (adapter w1) = settings (adapter w)"
    by (rule connect_fulfilledE)
  show ?thesis
    by (simp add: saveDesignDocs_def w1 assms(2))
qed

lemma saveDesignDocs_again:
  assumes "fst (connect w) = Fulfilled h" and "designDocs (settings (adapter w)) = Some dd"
  shows "fst (connect (snd (saveDesignDocs w))) = Fulfilled h"
    and "designDocs (settings (adapter (snd (saveDesignDocs w)))) = Some dd"
    and "(dbs (couch (snd (saveDesignDocs w))) n = None) = (dbs (couch w) n = None)"
proof -
  have c: "connection (adapter (snd (connect w))) = Some h"
    using assms(1) by (rule connect_fulfilled)
  show "fst (connect (snd (saveDesignDocs w))) = Fulfilled h"
    by (simp add: saveDesignDocs_snd[OF assms] connect_connected sync_each_frame c)
  show "designDocs (settings (adapter (snd (saveDesignDocs w)))) = Some dd"
    by (simp add: saveDesignDocs_snd[OF assms] sync_each_frame connect_frame assms(2))
  show "(dbs (couch (snd (saveDesignDocs w))) n = None) = (dbs (couch w) n = None)"
    by (simp add: saveDesignDocs_snd[OF assms] sync_each_exists connect_frame)
qed

lemma saveDesignDocs_stored_design:
  assumes "fst (connect w) = Fulfilled h" and "designDocs (settings (adapter w)) = Some dd"
    and "distinct (map fst dd)" and "(name, def) \<in> set dd" and "dbs (couch w) (bound_db h) \<noteq> None"
  shows "stored (couch (snd (saveDesignDocs w))) (bound_db h) (JStr (design_id name))
         = synced name def (stored (couch w) (bound_db h) (JStr (design_id name)))"
proof -
  have "dbs (couch (snd (connect w))) (bound_db h) \<noteq> None"
    using assms(5) by (simp add: connect_frame)
  from sync_each_stored_design[OF assms(3,4) this] show ?thesis
    by (simp add: saveDesignDocs_snd[OF assms(1,2)] connect_frame)
qed

lemma design_connect: "fst (connect design_world) = Fulfilled \<lparr>serial = 0, bound_db = ''app''\<rparr>"
  by (simp add: connect_def design_world_def design_settings_def str_or_def Let_def example_defs)

subsection \<open>The lifecycle hooks\<close>



lemma getDB_snd: "snd (getDB w) = w"
  by (auto simp: getDB_def split: option.splits sum.splits)

lemma db_createAsync_frame:
  "adapter (snd (db_createAsync name w)) = adapter w"
  by (auto simp: db_createAsync_def split: option.splits prod.splits sum.splits)

lemma db_destroyAsync_frame:
  "adapter (snd (db_destroyAsync name w)) = adapter w"
  by (auto simp: db_destroyAsync_def split: option.splits prod.splits sum.splits)



lemma saveDesignDocs_frame:
  "adapter (snd (saveDesignDocs w)) = adapter (snd (connect w))"
  by (cases "connect w" rule: prod.exhaust)
     (auto simp: saveDesignDocs_def sync_each_frame split: outcome.splits option.splits)




subsection \<open>Every operation keeps the connector coherent\<close>

text \<open>
  An operation changes the connector only by connecting, so the coherent states are
  closed under all of them (\<open>connect\<close> and \<open>disconnect\<close> are covered by
  \<open>coherent_connect\<close> and \<open>coherent_disconnect\<close>).
\<close>

lemma coherent_adapter: "adapter w' = adapter w \<Longrightarrow> coherent w' = coherent w"
  by (simp add: coherent_def split: option.splits)

lemma connect_adapter_cong:
  "adapter w' = adapter w \<Longrightarrow> adapter (snd (connect w')) = adapter (snd (connect w))"
  by (simp add: connect_def Let_def split: option.splits)

lemma connect_adapter_idem:
  "adapter (snd (connect (snd (connect w)))) = adapter (snd (connect w))"
  by (simp add: connect_def Let_def split: option.splits)

lemma and_then_adapter:
  assumes "\<And>x s. adapter (snd (f x s)) = adapter s"
  shows "adapter (snd (and_then p f)) = adapter (snd p)"
  by (simp add: and_then_snd assms split: outcome.splits)

lemma findById_adapter: "adapter (snd (findById w m k options)) = adapter (snd (connect w))"
  unfolding findById_def by (rule and_then_adapter) (simp split: sum.splits)

lemma destroyById_adapter: "adapter (snd (destroyById w m k options)) = adapter (snd (connect w))"
  unfolding destroyById_def by (rule and_then_adapter) (simp split: sum.splits prod.splits)

lemma destroy_adapter: "adapter (snd (destroy w m k options)) = adapter (snd (connect w))"
  using destroyById_adapter[of w m k options]
  by (cases "destroyById w m k options" rule: prod.exhaust)
     (simp add: destroy_def split: outcome.splits)


lemma alloc_adapter: "adapter (fst (alloc ob w)) = adapter w"
  by (simp add: alloc_def)

lemma create_adapter: "adapter (snd (create w m data options)) = adapter (snd (connect w))"
proof -
  have "adapter (snd (create w m data options)) =
        adapter (snd (connect (fst (if \<not> nullish (getIdValue (adapter w) m (JObj (heap w data)))
                                    then alloc (set_prop ''_id'' (getIdValue (adapter w) m (JObj (heap w data))) (heap w data)) w
                                    else (w, data)))))"
    unfolding create_def Let_def
    by (simp add: and_then_adapter insertAsync_frame split: prod.splits)
  also have "\<dots> = adapter (snd (connect w))"
    by (rule connect_adapter_cong) (simp add: alloc_adapter)
  finally show ?thesis .
qed


lemma save_adapter: "adapter (snd (save w m data options)) = adapter (snd (connect w))"
proof -
  have "adapter (snd (save w m data options)) = adapter (snd (connect (fst (save_begin w m data options))))"
    by (simp add: save_unfold and_then_adapter insertAsync_frame)
  then show ?thesis
    by (simp add: connect_adapter_cong[OF save_begin_frame(1)])
qed

lemma replaceById_adapter:
  "adapter (snd (replaceById w m k data options)) = adapter (snd (connect w))"
proof -
  let ?inner = "and_then (findById w m k options) (\<lambda>res w1.
          save (w1\<lparr>heap := (heap w1)(data := set_prop ''_rev'' (prop_of res ''_rev'') (heap w1 data))\<rparr>)
            m data options)"
  have i: "adapter (snd ?inner) = adapter (snd (connect w))"
  proof (cases "fst (findById w m k options)")
    case (Fulfilled res)
    let ?w1 = "snd (findById w m k options)"
    let ?w1' = "?w1\<lparr>heap := (heap ?w1)(data := set_prop ''_rev'' (prop_of res ''_rev'') (heap ?w1 data))\<rparr>"
    have "adapter (snd ?inner) = adapter (snd (save ?w1' m data options))"
      by (simp add: and_then_snd Fulfilled)
    also have "\<dots> = adapter (snd (connect ?w1'))" by (rule save_adapter)
    also have "\<dots> = adapter (snd (connect (snd (connect w))))"
      by (rule connect_adapter_cong) (simp add: findById_adapter)
    finally show ?thesis by (simp add: connect_adapter_idem)
  qed (simp_all add: and_then_snd findById_adapter)
  have "adapter (snd (replaceById w m k data options)) =
        (case fst ?inner of Fulfilled x \<Rightarrow> adapter (snd (findById (snd ?inner) m k options))
         | _ \<Rightarrow> adapter (snd ?inner))"
    by (simp add: replaceById_def and_then_snd split: outcome.splits)
  also have "\<dots> = adapter (snd (connect w))"
    using connect_adapter_cong[OF i] by (simp add: findById_adapter i connect_adapter_idem split: outcome.splits)
  finally show ?thesis .
qed

lemma find_each_adapter:
  "adapter (snd (find_each m options ks w)) = (if ks = [] then adapter w else adapter (snd (connect w)))"
proof (induction ks arbitrary: w)
  case Nil
  show ?case by simp
next
  case (Cons k ks)
  let ?w1 = "snd (findById w m k options)"
  have "adapter (snd (find_each m options (k # ks) w)) =
        (case fst (findById w m k options) of Thrown e \<Rightarrow> adapter ?w1
         | _ \<Rightarrow> adapter (snd (find_each m options ks ?w1)))"
    by (cases "findById w m k options" rule: prod.exhaust)
       (simp add: and_then_adapter split: outcome.splits)
  also have "\<dots> = adapter (snd (connect w))"
    using connect_adapter_cong[of ?w1 "snd (connect w)"]
    by (simp add: Cons.IH findById_adapter connect_adapter_idem split: outcome.splits)
  finally show ?case by simp
qed

lemma all_adapter:
  "adapter (snd (all w m query options)) = adapter w \<or>
   adapter (snd (all w m query options)) = adapter (snd (connect w))"
  by (simp add: all_def Let_def and_then_adapter find_each_adapter)


lemma create_views_adapter:
  assumes "adapter (snd p) = adapter (snd (connect w))"
  shows "adapter (snd (create_views p)) = adapter (snd (connect w))"
proof (cases "designDocs (settings (adapter (snd p)))")
  case None
  then show ?thesis by (simp add: create_views_def assms)
next
  case (Some dd)
  have "adapter (snd (create_views p)) =
        (case fst p of Fulfilled x \<Rightarrow> adapter (snd (saveDesignDocs (snd p))) | _ \<Rightarrow> adapter (snd p))"
    by (simp add: create_views_def Some and_then_snd and_then_adapter split: outcome.splits)
  also have "\<dots> = adapter (snd (connect w))"
    using connect_adapter_cong[OF assms]
    by (simp add: saveDesignDocs_frame assms connect_adapter_idem split: outcome.splits)
  finally show ?thesis .
qed

lemma autoupdate_adapter: "adapter (snd (autoupdate w models)) = adapter (snd (connect w))"
  unfolding autoupdate_def
  by (rule create_views_adapter)
     (simp add: and_then_adapter getDB_snd db_createAsync_frame)

lemma automigrate_adapter: "adapter (snd (automigrate w models)) = adapter (snd (connect w))"
  unfolding automigrate_def
  by (rule create_views_adapter)
     (simp add: and_then_adapter getDB_snd db_createAsync_frame db_destroyAsync_frame)

lemma coherent_preserved:
  assumes "coherent w"
  shows "coherent (snd (findById w m k options))"
    and "coherent (snd (destroyById w m k options))"
    and "coherent (snd (destroy w m k options))"
    and "coherent (snd (create w m data options))"
    and "coherent (snd (save w m data options))"
    and "coherent (snd (replaceById w m k data options))"
    and "coherent (snd (all w m query options))"
    and "coherent (snd (saveDesignDocs w))"
    and "coherent (snd (autoupdate w models))"
    and "coherent (snd (automigrate w models))"
proof -
  have c: "coherent (snd (connect w))" using assms by (rule coherent_connect)
  have *: "coherent w'" if "adapter w' = adapter (snd (connect w))" for w'
    using c coherent_adapter[OF that] by simp
  show "coherent (snd (findById w m k options))" by (rule *) (rule findById_adapter)
  show "coherent (snd (destroyById w m k options))" by (rule *) (rule destroyById_adapter)
  show "coherent (snd (destroy w m k options))" by (rule *) (rule destroy_adapter)
  show "coherent (snd (create w m data options))" by (rule *) (rule create_adapter)
  show "coherent (snd (save w m data options))" by (rule *) (rule save_adapter)
  show "coherent (snd (replaceById w m k data options))" by (rule *) (rule replaceById_adapter)
  show "coherent (snd (all w m query options))"
    using all_adapter[of w m query options] assms * coherent_adapter by blast
  show "coherent (snd (saveDesignDocs w))" by (rule *) (rule saveDesignDocs_frame)
  show "coherent (snd (autoupdate w models))" by (rule *) (rule autoupdate_adapter)
  show "coherent (snd (automigrate w models))" by (rule *) (rule automigrate_adapter)
qed

section \<open>Key derivation (getKeysFromWhere)\<close>

text \<open>
  C4. Key derivation maps an equality test on the identifier field with a string or a
  buffer to the one-element key list, an \<^verbatim>\<open>inq\<close> operator carrying an array to that
  array as it is (order and duplicates kept), and every other shape (no id, another
  field, another operator, no where-clause) to the empty key list; so
  \<^verbatim>\<open>{id: "x"}\<close> gives \<^verbatim>\<open>["x"]\<close>, \<^verbatim>\<open>{id: {inq: ["a","b"]}}\<close> gives \<^verbatim>\<open>["a","b"]\<close> and
  \<^verbatim>\<open>{name: "x"}\<close> gives \<^verbatim>\<open>[]\<close>.
\<close>

theorem getKeysFromWhere_shapes:
  "getKeysFromWhere c m (JObj wh) =
     (case get_prop wh (idName c m) of
        JStr s \<Rightarrow> [JStr s]
      | JBuf b \<Rightarrow> [JBuf b]
      | JObj q \<Rightarrow> (case get_prop q ''inq'' of JArr ks \<Rightarrow> ks | _ \<Rightarrow> [])
      | _ \<Rightarrow> [])
   \<and> getKeysFromWhere c m JNull = []
   \<and> getKeysFromWhere c m JUndefined = []
   \<and> getKeysFromWhere (c\<lparr>idName := \<lambda>m. ''id''\<rparr>) m (JObj [(''id'', JStr ''x'')]) = [JStr ''x'']
   \<and> getKeysFromWhere (c\<lparr>idName := \<lambda>m. ''id''\<rparr>) m
        (JObj [(''id'', JObj [(''inq'', JArr [JStr ''a'', JStr ''b''])])]) = [JStr ''a'', JStr ''b'']
   \<and> getKeysFromWhere (c\<lparr>idName := \<lambda>m. ''id''\<rparr>) m
        (JObj [(''id'', JObj [(''inq'', JArr [JStr ''b'', JStr ''a'', JStr ''b''])])])
        = [JStr ''b'', JStr ''a'', JStr ''b'']
   \<and> getKeysFromWhere (c\<lparr>idName := \<lambda>m. ''id''\<rparr>) m (JObj [(''name'', JStr ''x'')]) = []"
  by (simp add: getKeysFromWhere_def getIdValue_def get_prop_def split: jsval.splits)

section \<open>Bulk find (all)\<close>

text \<open>
  C1. For a key list derived from an \<^verbatim>\<open>inq\<close> filter on the id, \<^verbatim>\<open>all\<close> fetches each key
  by id and returns exactly the documents that exist, in the order of the key list,
  leaving out every key whose document does not exist. The witness is the query
  \<^verbatim>\<open>{where: {id: {inq: ["a","missing","b"]}}}\<close> on a store without \<^verbatim>\<open>missing\<close>: it
  returns the documents \<^verbatim>\<open>a\<close> and \<^verbatim>\<open>b\<close>, in that order.
\<close>

theorem all_inq_in_key_order:
  assumes "fst (connect w) = Fulfilled h"
    and "get_prop query ''where'' = JObj wh"
    and "get_prop wh (idName (adapter w) m) = JObj q"
    and "get_prop q ''inq'' = JArr keys"
  shows "fst (all w m query options) =
     Fulfilled (List.map_filter
       (\<lambda>k. case doc_get (couch w) (bound_db h) k (opt_val w options) of
              Inl e \<Rightarrow> None
            | Inr d \<Rightarrow> Some (setIdValue (adapter w) m d (prop_of d ''_id''))) keys)"
proof -
  have keys: "getKeysFromWhere (adapter w) m (get_prop query ''where'') = keys"
    using assms(2-4) by (simp add: getKeysFromWhere_def getIdValue_def)
  have all_eq: "all w m query options =
      and_then (find_each m options keys w) (\<lambda>rs w1. (Fulfilled (filter truthy rs), w1))"
    using assms(2) keys by (simp add: all_def)
  show ?thesis
  proof (cases keys)
    case Nil
    then show ?thesis by (simp add: all_eq and_then_simps List.map_filter_simps)
  next
    case (Cons k ks)
    obtain w1 where cw: "connect w = (Fulfilled h, w1)"
      using assms(1) by (cases "connect w") auto
    have c: "connection (adapter w1) = Some h"
      using connect_fulfilled(1)[OF assms(1)] by (simp add: cw)
    have same: "fetched w1 h m options = fetched w h m options"
      using connect_fulfilled(2,3,5)[OF assms(1)]
      by (intro ext fetched_cong) (simp_all add: cw)
    have first: "findById w m k options = findById w1 m k options"
      by (simp add: findById_def cw connect_connected[OF c])
    have "find_each m options keys w = find_each m options keys w1"
      by (simp add: Cons first)
    then show ?thesis
      by (simp add: all_eq find_each_connected[OF c] and_then_simps filter_truthy_fetched same)
         (simp add: fetched_def[abs_def])
  qed
qed

theorem all_inq_in_key_order_witness:
  "fst (all example_world ''Person''
          [(''where'', JObj [(''id'', JObj [(''inq'', JArr [JStr ''a'', JStr ''missing'', JStr ''b''])])])] None)
   = Fulfilled [JObj [(''name'', JStr ''Ann''), (''_id'', JStr ''a''), (''_rev'', JNum 1), (''id'', JStr ''a'')],
                JObj [(''name'', JStr ''Bob''), (''_id'', JStr ''b''), (''_rev'', JNum 2), (''id'', JStr ''b'')]]"
proof -
  have c: "fst (connect example_world) = Fulfilled \<lparr>serial = 0, bound_db = ''app''\<rparr>"
    by (simp add: connect_def example_world_def CouchDB_def example_settings_def str_or_def Let_def)
  have q: "get_prop [(''where'', JObj [(''id'', JObj [(''inq'', JArr [JStr ''a'', JStr ''missing'', JStr ''b''])])])] ''where''
      = JObj [(''id'', JObj [(''inq'', JArr [JStr ''a'', JStr ''missing'', JStr ''b''])])]"
    by (simp add: get_prop_def)
  have i: "get_prop [(''id'', JObj [(''inq'', JArr [JStr ''a'', JStr ''missing'', JStr ''b''])])]
             (idName (adapter example_world) ''Person'')
      = JObj [(''inq'', JArr [JStr ''a'', JStr ''missing'', JStr ''b''])]"
    by (simp add: get_prop_def example_world_def CouchDB_def)
  have k: "get_prop [(''inq'', JArr [JStr ''a'', JStr ''missing'', JStr ''b''])] ''inq''
      = JArr [JStr ''a'', JStr ''missing'', JStr ''b'']"
    by (simp add: get_prop_def)
  show ?thesis
    using all_inq_in_key_order[OF c q i k, of None]
    by (simp add: List.map_filter_simps doc_get_def example_world_def example_server_def
        example_db_def served_def setIdValue_def CouchDB_def get_prop_def opt_val_def)
qed

section \<open>Replace and destroy by id\<close>

text \<open>
  C2. On a connector with a database name, \<^verbatim>\<open>replaceById(id, record)\<close> for an id that
  has no stored document fails with \<open>NotFound\<close> and writes nothing: the store is as it
  was (and so is the caller's heap).
\<close>

theorem replaceById_absent_NotFound:
  assumes "fst (connect w) = Fulfilled h"
    and "stored (couch w) (bound_db h) ident = None"
  shows "fst (replaceById w m ident data options) = Rejected NotFound
       \<and> couch (snd (replaceById w m ident data options)) = couch w
       \<and> heap (snd (replaceById w m ident data options)) = heap w"
proof -
  from assms(1) obtain w1 where w1: "connect w = (Fulfilled h, w1)" "connection (adapter w1) = Some h"
    "couch w1 = couch w" "heap w1 = heap w"
    by (rule connect_fulfilledE)
  have "findById w m ident options = findById w1 m ident options"
    by (simp add: findById_def w1(1) connect_connected[OF w1(2)])
  also have "\<dots> = (Rejected NotFound, w1)"
    using w1(2) assms(2) by (intro findById_absent) (simp_all add: w1(3))
  finally show ?thesis
    by (simp add: replaceById_def and_then_simps w1)
qed


theorem replaceById_absent_NotFound_witness:
  "fst (replaceById example_world ''Person'' (JStr ''missing'') 0 None) = Rejected NotFound
   \<and> couch (snd (replaceById example_world ''Person'' (JStr ''missing'') 0 None)) = couch example_world
   \<and> heap (snd (replaceById example_world ''Person'' (JStr ''missing'') 0 None)) = heap example_world"
proof -
  have "stored (couch example_world) (bound_db \<lparr>serial = 0, bound_db = ''app''\<rparr>) (JStr ''missing'') = None"
    by (simp add: stored_def example_world_def example_server_def example_db_def)
  then show ?thesis
    by (rule replaceById_absent_NotFound[OF example_connect])
qed

text \<open>
  C3, the claim as stated: \<^verbatim>\<open>destroy(id)\<close> returns \<^verbatim>\<open>{count: 0}\<close> on any failure of
  \<^verbatim>\<open>destroyById\<close>. It swallows a rejection, not a throw: \<^verbatim>\<open>destroyById\<close> calls
  \<^verbatim>\<open>connect\<close> before any promise exists, and on a connector without a database name
  \<^verbatim>\<open>connect\<close> throws, so \<^verbatim>\<open>destroy\<close> throws the configuration error too.
\<close>

theorem destroy_throws_counterexample:
  "fst (destroyById unnamed_world ''Person'' (JStr ''a'') None) = Thrown ConfigurationError
   \<and> fst (destroy unnamed_world ''Person'' (JStr ''a'') None) = Thrown ConfigurationError
   \<and> fst (destroy unnamed_world ''Person'' (JStr ''a'') None) \<noteq> Fulfilled [(''count'', JNum 0)]"
  by (simp add: destroy_def destroyById_def connect_def and_then_def str_or_def unnamed_world_def
      example_defs)

text \<open>
  C3, amended. \<^verbatim>\<open>destroy(id)\<close> returns \<^verbatim>\<open>{count: 1}\<close> when \<^verbatim>\<open>destroyById\<close> is fulfilled
  and \<^verbatim>\<open>{count: 0}\<close> when it is rejected, whatever the error; when \<^verbatim>\<open>destroyById\<close>
  throws, which it does only with the configuration error of \<^verbatim>\<open>connect\<close>, \<^verbatim>\<open>destroy\<close>
  throws that error. So on a connector that connects, two successive \<^verbatim>\<open>destroy\<close> calls
  on the id of a stored document report \<^verbatim>\<open>{count: 1}\<close> and then \<^verbatim>\<open>{count: 0}\<close>, the
  second \<^verbatim>\<open>destroyById\<close> being rejected with \<open>NotFound\<close>.
\<close>

theorem destroy_counts:
  "(case fst (destroyById w m ident options) of
      Fulfilled r \<Rightarrow> fst (destroy w m ident options) = Fulfilled [(''count'', JNum 1)]
    | Rejected e \<Rightarrow> fst (destroy w m ident options) = Fulfilled [(''count'', JNum 0)]
    | Thrown e \<Rightarrow> fst (destroy w m ident options) = Thrown e \<and> fst (connect w) = Thrown e
                    \<and> e = ConfigurationError)
   \<and> (fst (connect w) = Fulfilled h \<and> stored (couch w) (bound_db h) ident \<noteq> None \<longrightarrow>
        fst (destroy w m ident options) = Fulfilled [(''count'', JNum 1)]
      \<and> fst (destroy (snd (destroy w m ident options)) m ident options) = Fulfilled [(''count'', JNum 0)]
      \<and> fst (destroyById (snd (destroy w m ident options)) m ident options) = Rejected NotFound)"
proof -
  have thrown: "fst (connect w) = Thrown e \<and> e = ConfigurationError"
    if "fst (destroyById w m ident options) = Thrown e" for e
  proof -
    from connect_cases[of w] show ?thesis
    proof
      assume "\<exists>h. connect w = (Fulfilled h, snd (connect w)) \<and> connection (adapter (snd (connect w))) = Some h"
      then obtain h' where c: "connect w = (Fulfilled h', snd (connect w))"
        and s: "connection (adapter (snd (connect w))) = Some h'" by blast
      have "destroyById w m ident options = destroyById (snd (connect w)) m ident options"
        using c s by (rule destroyById_after_connect)
      with destroyById_connected_not_thrown[OF s, of m ident options] that show ?thesis by simp
    next
      assume "connect w = (Thrown ConfigurationError, w)"
      with that show ?thesis by (simp add: destroyById_def and_then_simps)
    qed
  qed
  have first: "(case fst (destroyById w m ident options) of
      Fulfilled r \<Rightarrow> fst (destroy w m ident options) = Fulfilled [(''count'', JNum 1)]
    | Rejected e \<Rightarrow> fst (destroy w m ident options) = Fulfilled [(''count'', JNum 0)]
    | Thrown e \<Rightarrow> fst (destroy w m ident options) = Thrown e \<and> fst (connect w) = Thrown e
                    \<and> e = ConfigurationError)"
    using thrown
    by (cases "destroyById w m ident options" rule: prod.exhaust)
       (auto simp: destroy_def split: outcome.splits)
  have twice: "fst (destroy w m ident options) = Fulfilled [(''count'', JNum 1)]
          \<and> fst (destroy (snd (destroy w m ident options)) m ident options) = Fulfilled [(''count'', JNum 0)]
          \<and> fst (destroyById (snd (destroy w m ident options)) m ident options) = Rejected NotFound"
    if c: "fst (connect w) = Fulfilled h" and st: "stored (couch w) (bound_db h) ident \<noteq> None"
  proof -
    from c obtain w1 where w1: "connect w = (Fulfilled h, w1)" "connection (adapter w1) = Some h"
      "couch w1 = couch w"
      by (rule connect_fulfilledE)
    have eq: "destroyById w m ident options = destroyById w1 m ident options"
      using w1(1,2) by (rule destroyById_after_connect)
    from st obtain rb where rb: "stored (couch w1) (bound_db h) ident = Some rb"
      by (auto simp: w1(3))
    from destroyById_present[OF w1(2) rb, of m options]
    obtain r w2 where w2: "destroyById w1 m ident options = (Fulfilled r, w2)"
      "connection (adapter w2) = Some h" "stored (couch w2) (bound_db h) ident = None"
      by blast
    have d1: "destroy w m ident options = (Fulfilled [(''count'', JNum 1)], w2)"
      by (simp add: destroy_def eq w2(1))
    have d2: "destroyById w2 m ident options = (Rejected NotFound, w2)"
      using w2(2,3) by (rule destroyById_absent)
    have d3: "destroy w2 m ident options = (Fulfilled [(''count'', JNum 0)], w2)"
      by (simp add: destroy_def d2)
    show ?thesis
      by (simp add: d1 d2 d3)
  qed
  show ?thesis using first twice by blast
qed

theorem destroy_counts_witness:
  "fst (destroyById example_world ''Person'' (JStr ''a'') None)
      = Fulfilled [(''ok'', JBool True), (''id'', JStr ''a''), (''rev'', JNum 2)]
   \<and> fst (destroy example_world ''Person'' (JStr ''a'') None) = Fulfilled [(''count'', JNum 1)]
   \<and> fst (destroy (snd (destroy example_world ''Person'' (JStr ''a'') None)) ''Person'' (JStr ''a'') None)
      = Fulfilled [(''count'', JNum 0)]
   \<and> fst (destroyById (snd (destroy example_world ''Person'' (JStr ''a'') None)) ''Person'' (JStr ''a'') None)
      = Rejected NotFound
   \<and> fst (destroyById example_world ''Person'' (JStr ''missing'') None) = Rejected NotFound
   \<and> fst (destroy example_world ''Person'' (JStr ''missing'') None) = Fulfilled [(''count'', JNum 0)]
   \<and> fst (destroyById unnamed_world ''Person'' (JStr ''a'') None) = Thrown ConfigurationError
   \<and> fst (destroy unnamed_world ''Person'' (JStr ''a'') None) = Thrown ConfigurationError"
proof -
  let ?h = "\<lparr>serial = 0, bound_db = ''app''\<rparr>"
  have st: "stored (couch example_world) (bound_db ?h) (JStr ''a'') \<noteq> None"
    by (simp add: stored_def example_world_def example_server_def example_db_def)
  have d: "fst (destroyById example_world ''Person'' (JStr ''a'') None)
      = Fulfilled [(''ok'', JBool True), (''id'', JStr ''a''), (''rev'', JNum 2)]"
    by (simp add: destroyById_def connect_def example_world_def CouchDB_def example_settings_def
        str_or_def Let_def and_then_simps doc_get_def example_server_def example_db_def
        served_id_rev doc_destroy_def opt_val_def)
  have m: "fst (destroyById example_world ''Person'' (JStr ''missing'') None) = Rejected NotFound"
    by (simp add: destroyById_def connect_def example_world_def CouchDB_def example_settings_def
        str_or_def Let_def and_then_simps doc_get_def example_server_def example_db_def opt_val_def)
  have u: "fst (destroyById unnamed_world ''Person'' (JStr ''a'') None) = Thrown ConfigurationError"
    by (simp add: destroyById_def connect_def and_then_def str_or_def unnamed_world_def example_defs)
  show ?thesis
    using destroy_counts[of example_world "''Person''" "JStr ''a''" None ?h]
      destroy_counts[of example_world "''Person''" "JStr ''missing''" None ?h]
      destroy_counts[of unnamed_world "''Person''" "JStr ''a''" None ?h]
      example_connect st d m u
    by simp
qed


section \<open>The connection handle\<close>

text \<open>
  C8. A connector holds at most one connection handle: once \<^verbatim>\<open>connect\<close> has succeeded,
  every further \<^verbatim>\<open>connect\<close> returns that same handle and changes nothing, until
  \<^verbatim>\<open>disconnect\<close>; \<^verbatim>\<open>connect\<close> fails with a configuration error when no database name
  is configured; \<^verbatim>\<open>disconnect\<close> always succeeds, connected or not, and clears the handle,
  and the next \<^verbatim>\<open>connect\<close> makes a new handle, bound to the same database. The states
  between calls are the coherent ones: a new connector is coherent, and \<^verbatim>\<open>connect\<close> and
  \<^verbatim>\<open>disconnect\<close> keep it so.
\<close>

theorem connection_handle_lifecycle:
  "(connection (adapter w) = None \<longrightarrow> coherent w)
   \<and> (coherent w \<longrightarrow> coherent (snd (connect w)) \<and> coherent (snd (disconnect w)))
   \<and> (coherent w \<and> configured_name (adapter w) = None \<longrightarrow> connect w = (Thrown ConfigurationError, w))
   \<and> (fst (connect w) = Fulfilled h \<longrightarrow> connect (snd (connect w)) = (Fulfilled h, snd (connect w)))
   \<and> fst (disconnect w) = Fulfilled True
   \<and> connection (adapter (snd (disconnect w))) = None
   \<and> (coherent w \<and> connection (adapter w) = Some h \<longrightarrow>
        (\<exists>h'. fst (connect (snd (disconnect w))) = Fulfilled h'
              \<and> serial h' \<noteq> serial h \<and> bound_db h' = bound_db h
              \<and> connection (adapter (snd (connect (snd (disconnect w))))) = Some h'))"
proof -
  have a: "connection (adapter w) = None \<longrightarrow> coherent w"
    by (simp add: coherent_def)
  have b: "coherent w \<longrightarrow> coherent (snd (connect w)) \<and> coherent (snd (disconnect w))"
    by (simp add: coherent_connect coherent_disconnect)
  have c: "coherent w \<and> configured_name (adapter w) = None \<longrightarrow> connect w = (Thrown ConfigurationError, w)"
    by (cases "connection (adapter w)") (auto simp: connect_unnamed coherent_def)
  have d: "fst (connect w) = Fulfilled h \<longrightarrow> connect (snd (connect w)) = (Fulfilled h, snd (connect w))"
    by (auto intro: connect_connected connect_fulfilled(1))
  have e: "coherent w \<and> connection (adapter w) = Some h \<longrightarrow>
        (\<exists>h'. fst (connect (snd (disconnect w))) = Fulfilled h'
              \<and> serial h' \<noteq> serial h \<and> bound_db h' = bound_db h
              \<and> connection (adapter (snd (connect (snd (disconnect w))))) = Some h')"
  proof (intro impI, elim conjE)
    assume co: "coherent w" and h: "connection (adapter w) = Some h"
    let ?w = "snd (disconnect w)"
    have n: "configured_name (adapter ?w) = Some (bound_db h)"
      using co h by (simp add: coherent_def configured_name_def disconnect_result)
    have s: "serial h < handles_made (adapter ?w)"
      using co h by (simp add: coherent_def disconnect_result)
    show "\<exists>h'. fst (connect ?w) = Fulfilled h' \<and> serial h' \<noteq> serial h \<and> bound_db h' = bound_db h
              \<and> connection (adapter (snd (connect ?w))) = Some h'"
      using s by (simp add: connect_named[OF disconnect_result(2) n])
  qed
  show ?thesis using a b c d e disconnect_result(1,2) by blast
qed

theorem connection_handle_lifecycle_witness:
  "coherent example_world
   \<and> connect unnamed_world = (Thrown ConfigurationError, unnamed_world)
   \<and> fst (connect example_world) = Fulfilled \<lparr>serial = 0, bound_db = ''app''\<rparr>
   \<and> connect (snd (connect example_world)) = (Fulfilled \<lparr>serial = 0, bound_db = ''app''\<rparr>, snd (connect example_world))
   \<and> fst (disconnect example_world) = Fulfilled True
   \<and> coherent (snd (connect example_world))
   \<and> fst (connect (snd (disconnect (snd (connect example_world))))) = Fulfilled \<lparr>serial = 1, bound_db = ''app''\<rparr>"
proof -
  have n0: "connection (adapter example_world) = None"
    by (simp add: example_world_def CouchDB_def)
  have n1: "connection (adapter unnamed_world) = None"
    by (simp add: unnamed_world_def example_world_def CouchDB_def)
  have u: "configured_name (adapter unnamed_world) = None"
    by (simp add: unnamed_world_def example_world_def CouchDB_def configured_name_def str_or_def addressed_def)
  have c1: "connection (adapter (snd (connect example_world))) = Some \<lparr>serial = 0, bound_db = ''app''\<rparr>"
    using example_connect by (rule connect_fulfilled(1))
  have r: "fst (connect (snd (disconnect (snd (connect example_world))))) = Fulfilled \<lparr>serial = 1, bound_db = ''app''\<rparr>"
    by (simp add: connect_def disconnect_def example_world_def CouchDB_def example_settings_def
        str_or_def Let_def)
  show ?thesis
    using connection_handle_lifecycle[of example_world "\<lparr>serial = 0, bound_db = ''app''\<rparr>"]
      connection_handle_lifecycle[of unnamed_world "\<lparr>serial = 0, bound_db = ''app''\<rparr>"]
      connection_handle_lifecycle[of "snd (connect example_world)" "\<lparr>serial = 0, bound_db = ''app''\<rparr>"]
      n0 n1 u c1 r example_connect
    by simp
qed


section \<open>The database named by the settings\<close>

text \<open>
  C7. A configuration may give the database name under \<^verbatim>\<open>database\<close> or under \<^verbatim>\<open>db\<close>;
  \<^verbatim>\<open>connect\<close> accepts both, and the lifecycle hooks should create, destroy and check that
  same database. The code evaluated on a configuration that gives only \<^verbatim>\<open>db\<close>:
  \<^verbatim>\<open>connect\<close> binds the database \<^verbatim>\<open>app\<close>, but \<^verbatim>\<open>getDB\<close>, \<^verbatim>\<open>autoupdate\<close> and
  \<^verbatim>\<open>automigrate\<close> read \<^verbatim>\<open>this.settings.database\<close>, which is undefined. So \<^verbatim>\<open>automigrate\<close>
  leaves the store as it was (the document \<^verbatim>\<open>a\<close> is still found) and \<^verbatim>\<open>autoupdate\<close> on a
  server without \<^verbatim>\<open>app\<close> does not create it, whatever the server's root answers; the same
  calls with the name under \<^verbatim>\<open>database\<close> create and reset \<^verbatim>\<open>app\<close>.
\<close>

theorem lifecycle_ignores_db_key:
  "fst (connect (db_key_world r)) = Fulfilled \<lparr>serial = 0, bound_db = ''app''\<rparr>
   \<and> couch (snd (automigrate (db_key_world r) [])) = couch (db_key_world r)
   \<and> fst (findById (snd (automigrate (db_key_world r) [])) ''Person'' (JStr ''a'') None)
       = Fulfilled (JObj [(''name'', JStr ''Ann''), (''_id'', JStr ''a''), (''_rev'', JNum 1), (''id'', JStr ''a'')])
   \<and> dbs (couch (snd (autoupdate ((db_key_world r)\<lparr>couch := bare_server r\<rparr>) []))) ''app'' = None
   \<and> dbs (couch (snd (autoupdate (example_world\<lparr>couch := bare_server r\<rparr>) []))) ''app'' = Some (\<lambda>s. None)
   \<and> dbs (couch (snd (automigrate (example_world\<lparr>couch := example_server\<lparr>root := r\<rparr>\<rparr>) []))) ''app'' = Some (\<lambda>s. None)"
proof (cases r)
  case None
  show ?thesis
    unfolding None
    apply (intro conjI)
    apply (simp add: db_key_world_def db_key_settings_def bare_server_def example_defs lifecycle_defs)
    apply (simp add: db_key_world_def db_key_settings_def bare_server_def example_defs lifecycle_defs)
    apply (simp add: db_key_world_def db_key_settings_def bare_server_def example_defs lifecycle_defs
        findById_def doc_get_def served_def setIdValue_def opt_val_def get_prop_def)
    apply (simp add: db_key_world_def db_key_settings_def bare_server_def example_defs lifecycle_defs)
    apply (simp add: db_key_world_def db_key_settings_def bare_server_def example_defs lifecycle_defs)
    apply (simp add: db_key_world_def db_key_settings_def bare_server_def example_defs lifecycle_defs)
    done
next
  case (Some j)
  show ?thesis
    unfolding Some
    apply (intro conjI)
    apply (simp add: db_key_world_def db_key_settings_def bare_server_def example_defs lifecycle_defs)
    apply (cases "truthy j"; simp add: db_key_world_def db_key_settings_def bare_server_def example_defs lifecycle_defs)
    apply (cases "truthy j"; simp add: db_key_world_def db_key_settings_def bare_server_def example_defs lifecycle_defs
        findById_def doc_get_def served_def setIdValue_def opt_val_def get_prop_def)
    apply (cases "truthy j"; simp add: db_key_world_def db_key_settings_def bare_server_def example_defs lifecycle_defs)
    apply (simp add: db_key_world_def db_key_settings_def bare_server_def example_defs lifecycle_defs)
    apply (simp add: db_key_world_def db_key_settings_def bare_server_def example_defs lifecycle_defs)
    done
qed

section \<open>Identifiers at creation\<close>

text \<open>
  C5, the claim as stated: when the record has no identifier value, the store assigns
  an id and the connector copies it back onto the record's identifier field. The code
  does not: \<^verbatim>\<open>create\<close> returns the pair of id and revision and never writes to the
  record. Here the store assigns \<^verbatim>\<open>u\<close> and the record is left without an id.
\<close>

theorem create_copies_id_back_counterexample:
  "fst (create example_world ''Person'' 1 None) = Fulfilled [JStr ''u'', JNum 1]
   \<and> heap (snd (create example_world ''Person'' 1 None)) 1 = [(''name'', JStr ''Dan'')]
   \<and> get_prop (heap (snd (create example_world ''Person'' 1 None)) 1) ''id'' \<noteq> JStr ''u''"
  unfolding example_create_without_id by (simp add: example_defs get_prop_def)

text \<open>
  C5, amended. On a connector with a database name and without a \<^verbatim>\<open>docName\<close> option: if
  the record's identifier value is present, a \<^verbatim>\<open>create\<close> that succeeds stores the
  document (the record plus \<^verbatim>\<open>_id\<close>) under that value and returns it with the revision;
  if it is absent, and the record has no \<^verbatim>\<open>_id\<close> either, a \<^verbatim>\<open>create\<close> that succeeds
  stores the record under the id the store assigns and returns that id with the
  revision. In both cases the record object is left as it was: reflecting the returned
  id onto the record is the caller's part.
\<close>

theorem create_ids:
  assumes "fst (connect w) = Fulfilled h"
    and "data < brk w"
    and "case options of None \<Rightarrow> True | Some r \<Rightarrow> r < brk w"
    and "\<not> truthy (prop_of (opt_val w options) ''docName'')"
    and "fst (create w m data options) = Fulfilled res"
  shows "heap (snd (create w m data options)) data = heap w data
       \<and> (\<not> nullish (getIdValue (adapter w) m (JObj (heap w data))) \<longrightarrow>
            (\<exists>rv. res = [getIdValue (adapter w) m (JObj (heap w data)), JNum (int rv)]
                \<and> stored (couch (snd (create w m data options))) (bound_db h)
                     (getIdValue (adapter w) m (JObj (heap w data)))
                   = Some (rv, set_prop ''_id'' (getIdValue (adapter w) m (JObj (heap w data))) (heap w data))))
       \<and> (nullish (getIdValue (adapter w) m (JObj (heap w data))) \<and> get_prop (heap w data) ''_id'' = JUndefined \<longrightarrow>
            (\<exists>rv. res = [JStr (uuids (couch w) (uuid_seq (couch w))), JNum (int rv)]
                \<and> stored (couch (snd (create w m data options))) (bound_db h)
                     (JStr (uuids (couch w) (uuid_seq (couch w))))
                   = Some (rv, heap w data)))"
proof -
  let ?ident = "getIdValue (adapter w) m (JObj (heap w data))"
  from assms(1) obtain w1 where w1: "connect w = (Fulfilled h, w1)" "couch w1 = couch w" "heap w1 = heap w"
    by (rule connect_fulfilledE)
  have frame: "heap (snd (create w m data options)) data = heap w data"
    using assms(2,4) by (rule create_heap_quiet)
  have present: "\<exists>rv. res = [?ident, JNum (int rv)]
                \<and> stored (couch (snd (create w m data options))) (bound_db h) ?ident
                   = Some (rv, set_prop ''_id'' ?ident (heap w data))"
    if p: "\<not> nullish ?ident"
  proof -
    let ?doc = "set_prop ''_id'' ?ident (heap w data)"
    let ?H = "(heap w)(brk w := ?doc)"
    let ?w2 = "w1\<lparr>heap := ?H, brk := Suc (brk w)\<rparr>"
    have ov: "opt_val ?w2 options = opt_val w options"
      using assms(3) by (auto simp: opt_val_def split: option.splits)
    have cr: "create w m data options =
        and_then (insertAsync h ?doc options ?w2)
          (\<lambda>r w3. (Fulfilled [get_prop r ''id'', get_prop r ''rev''], w3))"
      using p by (simp add: create_def Let_def alloc_def connect_heap_update w1 and_then_simps ov
          insertAsync_not_thrown split: outcome.splits)
    obtain r srv' where ins: "doc_insert (couch w) (bound_db h) ?doc (opt_val w options) = (Inr r, srv')"
      and res: "res = [get_prop r ''id'', get_prop r ''rev'']"
      and c': "couch (snd (create w m data options)) = srv'"
      using assms(5) unfolding cr
      by (cases "doc_insert (couch w) (bound_db h) ?doc (opt_val w options)")
         (auto simp: and_then_def insertAsync_store w1 ov split: sum.splits outcome.splits)
    from doc_insert_ok[OF ins assms(4)] obtain rv s where
      r: "r = [(''ok'', JBool True), (''id'', JStr s), (''rev'', JNum (int rv))]"
      and st: "stored srv' (bound_db h) (JStr s) = Some (rv, ?doc)"
      and i: "(case get_prop ?doc ''_id'' of JUndefined \<Rightarrow> s = uuids (couch w) (uuid_seq (couch w)) | v \<Rightarrow> v = JStr s)"
      by blast
    have "?ident = JStr s"
      using i p by (cases ?ident) (simp_all add: prop_set_prop)
    then show ?thesis
      using st by (simp add: res r c' get_prop_def)
  qed
  have absent: "\<exists>rv. res = [JStr (uuids (couch w) (uuid_seq (couch w))), JNum (int rv)]
                \<and> stored (couch (snd (create w m data options))) (bound_db h)
                     (JStr (uuids (couch w) (uuid_seq (couch w))))
                   = Some (rv, heap w data)"
    if p: "nullish ?ident" and u: "get_prop (heap w data) ''_id'' = JUndefined"
  proof -
    have ov: "opt_val w1 options = opt_val w options"
      by (simp add: opt_val_def w1 split: option.splits)
    have cr: "create w m data options =
        and_then (insertAsync h (heap w data) options w1)
          (\<lambda>r w3. (Fulfilled [get_prop r ''id'', get_prop r ''rev''], w3))"
      using p by (simp add: create_def Let_def w1 and_then_simps ov
          insertAsync_not_thrown split: outcome.splits)
    obtain r srv' where ins: "doc_insert (couch w) (bound_db h) (heap w data) (opt_val w options) = (Inr r, srv')"
      and res: "res = [get_prop r ''id'', get_prop r ''rev'']"
      and c': "couch (snd (create w m data options)) = srv'"
      using assms(5) unfolding cr
      by (cases "doc_insert (couch w) (bound_db h) (heap w data) (opt_val w options)")
         (auto simp: and_then_def insertAsync_store w1 ov split: sum.splits outcome.splits)
    from doc_insert_ok[OF ins assms(4)] obtain rv s where
      r: "r = [(''ok'', JBool True), (''id'', JStr s), (''rev'', JNum (int rv))]"
      and st: "stored srv' (bound_db h) (JStr s) = Some (rv, heap w data)"
      and i: "(case get_prop (heap w data) ''_id'' of JUndefined \<Rightarrow> s = uuids (couch w) (uuid_seq (couch w)) | v \<Rightarrow> v = JStr s)"
      by blast
    have "s = uuids (couch w) (uuid_seq (couch w))"
      using i by (simp add: u)
    then show ?thesis
      using st by (simp add: res r c' get_prop_def)
  qed
  show ?thesis using frame present absent by blast
qed


theorem create_ids_witness:
  "fst (create example_world ''Person'' 0 None) = Fulfilled [JStr ''c'', JNum 1]
   \<and> stored (couch (snd (create example_world ''Person'' 0 None))) ''app'' (JStr ''c'')
       = Some (1, [(''id'', JStr ''c''), (''name'', JStr ''Cy''), (''_id'', JStr ''c'')])
   \<and> heap (snd (create example_world ''Person'' 0 None)) 0 = [(''id'', JStr ''c''), (''name'', JStr ''Cy'')]
   \<and> fst (create example_world ''Person'' 1 None) = Fulfilled [JStr ''u'', JNum 1]
   \<and> stored (couch (snd (create example_world ''Person'' 1 None))) ''app'' (JStr ''u'')
       = Some (1, [(''name'', JStr ''Dan'')])
   \<and> heap (snd (create example_world ''Person'' 1 None)) 1 = [(''name'', JStr ''Dan'')]"
proof -
  have b: "(0::nat) < brk example_world" "(1::nat) < brk example_world"
    by (simp_all add: example_world_def)
  have o: "case None :: nat option of None \<Rightarrow> True | Some r \<Rightarrow> r < brk example_world"
    by simp
  have n: "\<not> truthy (prop_of (opt_val example_world None) ''docName'')"
    by (simp add: opt_val_def)
  have e0: "fst (create example_world ''Person'' 0 None) = Fulfilled [JStr ''c'', JNum 1]"
    unfolding example_create_with_id by simp
  have e1: "fst (create example_world ''Person'' 1 None) = Fulfilled [JStr ''u'', JNum 1]"
    unfolding example_create_without_id by simp
  have j: "idName (adapter example_world) ''Person'' = ''id''"
    by (simp add: example_defs)
  have h: "heap example_world 0 = [(''id'', JStr ''c''), (''name'', JStr ''Cy'')]"
    "heap example_world 1 = [(''name'', JStr ''Dan'')]"
    "uuids (couch example_world) (uuid_seq (couch example_world)) = ''u''"
    by (simp_all add: example_defs)
  note t0 = create_ids[OF example_connect b(1) o n e0, unfolded h]
  note t1 = create_ids[OF example_connect b(2) o n e1, unfolded h]
  show ?thesis
    using t0 t1 e0 e1 by (simp add: getIdValue_def get_prop_def j)
qed
section \<open>What the hooks do to the caller's objects\<close>

text \<open>
  C10. \<^verbatim>\<open>create\<close> never writes to an object of the caller: \<^verbatim>\<open>_id\<close> goes onto a copy
  of the record. The one object of the caller that a \<^verbatim>\<open>create\<close> call can leave changed
  is the options object, which goes to the client's insert as it is, and only when it
  carries a \<^verbatim>\<open>docName\<close> for the client to use up. \<^verbatim>\<open>save\<close> sets \<^verbatim>\<open>docName\<close> on the
  caller's options object to the record's id whenever the record has one: the object
  carries it when \<^verbatim>\<open>save\<close> returns its promise, it is the object the insert is
  addressed with, and what the caller holds once the promise has settled is what the
  client's insert left of it. \<^verbatim>\<open>replaceById\<close> writes the \<^verbatim>\<open>_rev\<close> of the document it
  fetched into the caller's record (the record being an allocated object other than
  the options object) before it saves. The witness runs a client that deletes
  \<^verbatim>\<open>docName\<close> and one that keeps it.
\<close>

theorem caller_objects_frame:
  "(a < brk w \<and> (options = Some a \<longrightarrow> \<not> truthy (get_prop (heap w a) ''docName'')) \<longrightarrow>
      heap (snd (create w m data options)) a = heap w a)
   \<and> snd (save_begin w m data (Some opts)) = opts
   \<and> heap (fst (save_begin w m data (Some opts))) opts =
       (if nullish (getIdValue (adapter w) m (JObj (heap w data))) then heap w opts
        else set_prop ''docName'' (getIdValue (adapter w) m (JObj (heap w data))) (heap w opts))
   \<and> (fst (connect w) = Fulfilled h \<longrightarrow>
        fst (save w m data (Some opts)) =
          (case fst (doc_insert (couch w) (bound_db h)
                       (heap (fst (save_begin w m data (Some opts))) data)
                       (JObj (heap (fst (save_begin w m data (Some opts))) opts))) of
             Inl e \<Rightarrow> Rejected e
           | Inr r \<Rightarrow> Fulfilled r))
   \<and> heap (snd (save w m data (Some opts))) opts =
       (case fst (connect w) of
          Fulfilled h \<Rightarrow> consumed (couch w) (heap (fst (save_begin w m data (Some opts))) opts)
        | _ \<Rightarrow> heap (fst (save_begin w m data (Some opts))) opts)
   \<and> (fst (findById w m ident options) = Fulfilled res \<and> data < brk w \<and> options \<noteq> Some data \<longrightarrow>
        heap (snd (replaceById w m ident data options)) data
        = set_prop ''_rev'' (prop_of res ''_rev'') (heap w data))"
proof -
  have b: "heap (fst (save_begin w m data (Some opts))) opts =
       (if nullish (getIdValue (adapter w) m (JObj (heap w data))) then heap w opts
        else set_prop ''docName'' (getIdValue (adapter w) m (JObj (heap w data))) (heap w opts))"
    "snd (save_begin w m data (Some opts)) = opts"
    by (simp_all add: save_begin_Some)
  show ?thesis
    using create_heap_gen[of a w options m data] b save_outcome[of w h m data opts]
      save_heap[of w m data opts] replaceById_heap[of w m ident options res data]
    by blast
qed


theorem caller_objects_frame_witness:
  "heap (snd (create example_world ''Person'' 0 (Some 2))) 0 = [(''id'', JStr ''c''), (''name'', JStr ''Cy'')]
   \<and> heap (fst (save_begin example_world ''Person'' 0 (Some 2))) 2
       = [(''batch'', JBool True), (''docName'', JStr ''c'')]
   \<and> fst (save example_world ''Person'' 0 (Some 2))
       = Fulfilled [(''ok'', JBool True), (''id'', JStr ''c''), (''rev'', JNum 1)]
   \<and> heap (snd (save example_world ''Person'' 0 (Some 2))) 2 = [(''batch'', JBool True)]
   \<and> heap (snd (save (example_world\<lparr>couch := example_server\<lparr>insert_keeps := \<lambda>ob. ob\<rparr>\<rparr>)
                    ''Person'' 0 (Some 2))) 2
       = [(''batch'', JBool True), (''docName'', JStr ''c'')]
   \<and> heap (snd (replaceById example_world ''Person'' (JStr ''a'') 0 (Some 2))) 0
       = [(''id'', JStr ''c''), (''name'', JStr ''Cy''), (''_rev'', JNum 1)]"
proof -
  let ?h = "\<lparr>serial = 0, bound_db = ''app''\<rparr>"
  let ?res = "JObj [(''name'', JStr ''Ann''), (''_id'', JStr ''a''), (''_rev'', JNum 1), (''id'', JStr ''a'')]"
  let ?keeping = "example_world\<lparr>couch := example_server\<lparr>insert_keeps := \<lambda>ob. ob\<rparr>\<rparr>"
  note t1 = caller_objects_frame[where a=0 and w=example_world and options="Some 2" and m="''Person''"
      and data=0 and opts=2 and h="?h" and ident="JStr ''a''" and res="?res"]
  note t2 = caller_objects_frame[where a=0 and w="?keeping" and options="Some 2" and m="''Person''"
      and data=0 and opts=2 and h="?h" and ident="JStr ''a''" and res="?res"]
  have f: "fst (findById example_world ''Person'' (JStr ''a'') (Some 2)) = Fulfilled ?res"
    by (simp add: findById_def connect_def and_then_def Let_def str_or_def doc_get_def served_def
        setIdValue_def get_prop_def opt_val_def example_defs)
  have ck: "fst (connect ?keeping) = Fulfilled ?h"
    by (simp add: connect_def str_or_def Let_def example_defs)
  have b: "(0::nat) < brk example_world" "Some (2::nat) \<noteq> Some 0"
    by (simp_all add: example_world_def)
  have i: "getIdValue (adapter example_world) ''Person'' (JObj (heap example_world 0)) = JStr ''c''"
    "getIdValue (adapter ?keeping) ''Person'' (JObj (heap ?keeping 0)) = JStr ''c''"
    "getIdValue (adapter example_world) ''Person'' (JObj [(''id'', JStr ''c''), (''name'', JStr ''Cy'')])
       = JStr ''c''"
    by (simp_all add: getIdValue_def get_prop_def example_defs)
  have hp: "heap example_world 0 = [(''id'', JStr ''c''), (''name'', JStr ''Cy'')]"
    "heap example_world 2 = [(''batch'', JBool True)]"
    "heap ?keeping 2 = [(''batch'', JBool True)]"
    by (simp_all add: example_defs)
  have cr: "heap (snd (create example_world ''Person'' 0 (Some 2))) 0
      = [(''id'', JStr ''c''), (''name'', JStr ''Cy'')]"
    using t1[THEN conjunct1] b by (simp add: hp)
  have sb: "heap (fst (save_begin example_world ''Person'' 0 (Some 2))) 2
      = [(''batch'', JBool True), (''docName'', JStr ''c'')]"
    using t1[THEN conjunct2, THEN conjunct2, THEN conjunct1] by (simp add: i hp)
  have sbk: "heap (fst (save_begin ?keeping ''Person'' 0 (Some 2))) 2
      = [(''batch'', JBool True), (''docName'', JStr ''c'')]"
    using t2[THEN conjunct2, THEN conjunct2, THEN conjunct1] by (simp add: i hp)
  have sd: "heap (fst (save_begin example_world ''Person'' 0 (Some 2))) 0
      = [(''id'', JStr ''c''), (''name'', JStr ''Cy'')]"
    using save_begin_frame(4)[OF b(1), of "Some 2" "''Person''" 0] by (simp add: hp)
  have di: "fst (doc_insert (couch example_world) ''app'' [(''id'', JStr ''c''), (''name'', JStr ''Cy'')]
                   (JObj [(''batch'', JBool True), (''docName'', JStr ''c'')]))
      = Inr [(''ok'', JBool True), (''id'', JStr ''c''), (''rev'', JNum 1)]"
    by (simp add: doc_insert_def put_doc_def get_prop_def Let_def example_defs)
  have cs: "consumed (couch example_world) [(''batch'', JBool True), (''docName'', JStr ''c'')]
      = [(''batch'', JBool True)]"
    "consumed (example_server\<lparr>insert_keeps := \<lambda>ob. ob\<rparr>) [(''batch'', JBool True), (''docName'', JStr ''c'')]
      = [(''batch'', JBool True), (''docName'', JStr ''c'')]"
    by (simp_all add: consumed_def without_docName_def get_prop_def example_defs)
  have so: "fst (save example_world ''Person'' 0 (Some 2))
      = Fulfilled [(''ok'', JBool True), (''id'', JStr ''c''), (''rev'', JNum 1)]"
    using t1[THEN conjunct2, THEN conjunct2, THEN conjunct2, THEN conjunct1] example_connect
    by (simp add: sb sd di)
  have sh: "heap (snd (save example_world ''Person'' 0 (Some 2))) 2 = [(''batch'', JBool True)]"
    using t1[THEN conjunct2, THEN conjunct2, THEN conjunct2, THEN conjunct2, THEN conjunct1]
    by (simp add: sb example_connect cs)
  have shk: "heap (snd (save ?keeping ''Person'' 0 (Some 2))) 2
      = [(''batch'', JBool True), (''docName'', JStr ''c'')]"
    using t2[THEN conjunct2, THEN conjunct2, THEN conjunct2, THEN conjunct2, THEN conjunct1]
    by (simp add: sbk ck cs)
  have rp: "heap (snd (replaceById example_world ''Person'' (JStr ''a'') 0 (Some 2))) 0
      = [(''id'', JStr ''c''), (''name'', JStr ''Cy''), (''_rev'', JNum 1)]"
    using t1[THEN conjunct2, THEN conjunct2, THEN conjunct2, THEN conjunct2, THEN conjunct2] f b
    by (simp add: hp get_prop_def)
  show ?thesis
    using cr sb so sh shk rp by simp
qed

section \<open>Design documents\<close>

text \<open>
  C6. \<^verbatim>\<open>saveDesignDocs\<close> is idempotent on document fields: after a second run with the
  same definitions every design document has the fields it had after the first run,
  but for the revision token. A field of a stored design document that the configured
  definition does not have (one added by another writer) is kept by a run, and the
  fields of the definition overwrite the stored ones. The merge and the store are the
  ones modelled from the spec; the definitions are the entries of an object, so their
  names are distinct.
\<close>

theorem saveDesignDocs_idempotent_merge:
  assumes "fst (connect w) = Fulfilled h"
    and "designDocs (settings (adapter w)) = Some dd"
    and "distinct (map fst dd)"
    and "(name, def) \<in> set dd"
  shows "(case (document (couch (snd (saveDesignDocs w))) (bound_db h) (design_id name),
               document (couch (snd (saveDesignDocs (snd (saveDesignDocs w))))) (bound_db h) (design_id name)) of
            (None, None) \<Rightarrow> True
          | (Some d1, Some d2) \<Rightarrow> \<forall>k. k \<noteq> ''_rev'' \<longrightarrow> get_prop d2 k = get_prop d1 k
          | _ \<Rightarrow> False)
       \<and> (\<forall>d0. document (couch w) (bound_db h) (design_id name) = Some d0 \<longrightarrow>
            (\<exists>d1. document (couch (snd (saveDesignDocs w))) (bound_db h) (design_id name) = Some d1
                 \<and> (\<forall>k. k \<notin> set (object_keys def) \<and> k \<noteq> ''_rev'' \<longrightarrow> get_prop d1 k = get_prop d0 k)))
       \<and> (dbs (couch w) (bound_db h) \<noteq> None \<and> ''_rev'' \<notin> set (object_keys def) \<longrightarrow>
            (\<exists>d1. document (couch (snd (saveDesignDocs w))) (bound_db h) (design_id name) = Some d1
                 \<and> (\<forall>k \<in> set (object_keys def). k \<noteq> ''_id'' \<longrightarrow> get_prop d1 k = get_prop def k)))"
proof (cases "dbs (couch w) (bound_db h)")
  case None
  let ?w1 = "snd (saveDesignDocs w)"
  have n1: "dbs (couch ?w1) (bound_db h) = None"
    using None by (simp add: saveDesignDocs_again(3)[OF assms(1,2)])
  have n2: "dbs (couch (snd (saveDesignDocs ?w1))) (bound_db h) = None"
    using n1 by (simp add: saveDesignDocs_again(3)[OF saveDesignDocs_again(1,2)[OF assms(1,2)]])
  show ?thesis
    by (simp add: document_def stored_no_db None n1 n2)
next
  case (Some d)
  let ?t = "design_id name"
  let ?w1 = "snd (saveDesignDocs w)"
  let ?w2 = "snd (saveDesignDocs ?w1)"
  let ?D = "stored (couch w) (bound_db h) (JStr ?t)"
  have ex: "dbs (couch w) (bound_db h) \<noteq> None" using Some by simp
  have ex1: "dbs (couch ?w1) (bound_db h) \<noteq> None"
    using ex by (simp add: saveDesignDocs_again(3)[OF assms(1,2)])
  have s1: "stored (couch ?w1) (bound_db h) (JStr ?t) = synced name def ?D"
    using assms ex by (rule saveDesignDocs_stored_design)
  have s2: "stored (couch ?w2) (bound_db h) (JStr ?t) = synced name def (synced name def ?D)"
    using saveDesignDocs_stored_design[OF saveDesignDocs_again(1,2)[OF assms(1,2)] assms(3,4) ex1]
    by (simp add: s1)
  have A: "(case (document (couch ?w1) (bound_db h) ?t, document (couch ?w2) (bound_db h) ?t) of
            (None, None) \<Rightarrow> True
          | (Some d1, Some d2) \<Rightarrow> \<forall>k. k \<noteq> ''_rev'' \<longrightarrow> get_prop d2 k = get_prop d1 k
          | _ \<Rightarrow> False)"
    using synced_idem[of name "def" ?D] by (auto simp: document_def s1 s2)
  have B: "\<exists>d1. document (couch ?w1) (bound_db h) ?t = Some d1
                 \<and> (\<forall>k. k \<notin> set (object_keys def) \<and> k \<noteq> ''_rev'' \<longrightarrow> get_prop d1 k = get_prop d0 k)"
    if "document (couch w) (bound_db h) ?t = Some d0" for d0
  proof -
    from that obtain r b where rb: "?D = Some (r, b)" "d0 = served ?t r b"
      by (auto simp: document_def split: option.splits)
    from synced_keeps[of name "def" r b] show ?thesis
      by (auto simp: document_def s1 rb)
  qed
  have C: "\<exists>d1. document (couch ?w1) (bound_db h) ?t = Some d1
                 \<and> (\<forall>k \<in> set (object_keys def). k \<noteq> ''_id'' \<longrightarrow> get_prop d1 k = get_prop def k)"
    if "''_rev'' \<notin> set (object_keys def)"
    using synced_overwrites[OF that, of name ?D] by (auto simp: document_def s1)
  show ?thesis using A B C by blast
qed


theorem saveDesignDocs_idempotent_merge_witness:
  "document (couch design_world) ''app'' ''_design/v''
     = Some [(''views'', JStr ''old''), (''extra'', JStr ''kept''), (''_id'', JStr ''_design/v''), (''_rev'', JNum 3)]
   \<and> document (couch (snd (saveDesignDocs design_world))) ''app'' ''_design/v''
     = Some [(''views'', JStr ''by_name''), (''extra'', JStr ''kept''), (''_id'', JStr ''_design/v''),
             (''_rev'', JNum 4), (''language'', JStr ''javascript'')]
   \<and> document (couch (snd (saveDesignDocs (snd (saveDesignDocs design_world))))) ''app'' ''_design/v''
     = Some [(''views'', JStr ''by_name''), (''extra'', JStr ''kept''), (''_id'', JStr ''_design/v''),
             (''_rev'', JNum 5), (''language'', JStr ''javascript'')]"
proof -
  let ?h = "\<lparr>serial = 0, bound_db = ''app''\<rparr>"
  let ?def = "[(''views'', JStr ''by_name''), (''language'', JStr ''javascript'')]"
  have dd: "designDocs (settings (adapter design_world)) = Some [(''v'', ?def)]"
    by (simp add: design_world_def design_settings_def example_defs)
  have di: "distinct (map fst [(''v'', ?def)])" "(''v'', ?def) \<in> set [(''v'', ?def)]"
    by simp_all
  have ex: "dbs (couch design_world) (bound_db ?h) \<noteq> None"
    by (simp add: design_world_def example_defs)
  have nr: "''_rev'' \<notin> set (object_keys ?def)"
    by (simp add: object_keys_def)
  have d0: "document (couch design_world) ''app'' ''_design/v''
     = Some [(''views'', JStr ''old''), (''extra'', JStr ''kept''), (''_id'', JStr ''_design/v''), (''_rev'', JNum 3)]"
    by (simp add: document_def stored_def served_def design_world_def example_defs)
  have s0: "stored (couch design_world) (bound_db ?h) (JStr (design_id ''v''))
      = Some (3, [(''views'', JStr ''old''), (''extra'', JStr ''kept'')])"
    by (simp add: stored_def design_id_def design_world_def example_defs)
  have s1: "stored (couch (snd (saveDesignDocs design_world))) (bound_db ?h) (JStr (design_id ''v''))
      = Some (4, [(''views'', JStr ''by_name''), (''extra'', JStr ''kept''), (''_id'', JStr ''_design/v''),
                  (''_rev'', JNum 3), (''language'', JStr ''javascript'')])"
    unfolding saveDesignDocs_stored_design[OF design_connect dd di ex] s0
    by (simp add: synced_def merge_def served_def object_keys_def get_prop_def design_id_def)
  have ex1: "dbs (couch (snd (saveDesignDocs design_world))) (bound_db ?h) \<noteq> None"
    using ex by (simp add: saveDesignDocs_again(3)[OF design_connect dd])
  have s2: "stored (couch (snd (saveDesignDocs (snd (saveDesignDocs design_world))))) (bound_db ?h) (JStr (design_id ''v''))
      = Some (5, [(''views'', JStr ''by_name''), (''extra'', JStr ''kept''), (''_id'', JStr ''_design/v''),
                  (''_rev'', JNum 4), (''language'', JStr ''javascript'')])"
    unfolding saveDesignDocs_stored_design[OF saveDesignDocs_again(1,2)[OF design_connect dd] di ex1] s1
    by (simp add: synced_def merge_def served_def object_keys_def get_prop_def design_id_def)
  have d1: "document (couch (snd (saveDesignDocs design_world))) ''app'' ''_design/v''
     = Some [(''views'', JStr ''by_name''), (''extra'', JStr ''kept''), (''_id'', JStr ''_design/v''),
             (''_rev'', JNum 4), (''language'', JStr ''javascript'')]"
    using s1 by (simp add: document_def served_def design_id_def)
  have d2: "document (couch (snd (saveDesignDocs (snd (saveDesignDocs design_world))))) ''app'' ''_design/v''
     = Some [(''views'', JStr ''by_name''), (''extra'', JStr ''kept''), (''_id'', JStr ''_design/v''),
             (''_rev'', JNum 5), (''language'', JStr ''javascript'')]"
    using s2 by (simp add: document_def served_def design_id_def)
  show ?thesis
    using saveDesignDocs_idempotent_merge[OF design_connect dd di] ex nr d0 d1 d2
    by simp
qed

section \<open>The destructive reset (automigrate)\<close>





end
